theory Spec2Isabelle
  imports Main "HOL-Library.Char_ord" "HOL-Library.List_Lexorder"
begin

section \<open>Data model of the note store (server.py, class NotesStorage)\<close>

text \<open>
  Strings are byte strings (\<open>char list\<close>) compared with the lexicographic order of
  \<open>List_Lexorder\<close> over the byte order of \<open>Char_ord\<close>. Python compares \<open>str\<close> values
  code point by code point, a proper prefix being smaller; on UTF-8 encodings the byte
  order is the same order, so \<open><\<close> and \<open>\<le>\<close> on \<open>string\<close> model Python's \<open><\<close> and \<open><=\<close>.
\<close>

text \<open>The dictionary under \<open>note["tags"]\<close>; the key \<open>"type"\<close> is the field \<open>type_tag\<close>.\<close>

record note_tags =
  category :: string
  type_tag :: string
  priority :: string
  topics :: "string list"

text \<open>A note dictionary; the key \<open>"id"\<close> is the field \<open>note_id\<close>.\<close>

record note_record =
  note_id :: string
  title :: string
  content :: string
  tags :: note_tags
  created :: string
  updated :: string

text \<open>The dictionary under \<open>data["tag_schema"]\<close>, one list per dimension.\<close>

record tag_schema =
  schema_category :: "string list"
  schema_type :: "string list"
  schema_priority :: "string list"
  schema_topics :: "string list"

text \<open>\<open>self.data\<close>: the document; the key \<open>"notes"\<close> is the field \<open>all_notes\<close>.\<close>

record document =
  tag_schema :: tag_schema
  all_notes :: "note_record list"

text \<open>
  The state of a \<open>NotesStorage\<close> object and of its file: \<open>data\<close> is \<open>self.data\<close>,
  \<open>disk\<close> is the content of the file at \<open>self.file_path\<close> (\<open>None\<close> when the file does
  not exist) and \<open>save_calls\<close> counts the calls of \<open>_save\<close>.
\<close>

record store =
  data :: document
  disk :: "document option"
  save_calls :: nat

text \<open>
  Every exception the class raises itself is a \<open>ValueError\<close> with a message;
  \<open>OSError\<close> stands for the exception \<open>_save\<close> re-raises when the write fails.
\<close>

datatype error = ValueError string | OSError

text \<open>What \<open>datetime.utcnow()\<close> returns: the fields of a \<open>datetime\<close> object.\<close>

record datetime =
  year :: nat
  month :: nat
  day :: nat
  hour :: nat
  minute :: nat
  second :: nat
  microsecond :: nat

text \<open>
  What one call reads from its environment: the clock (\<open>datetime.utcnow()\<close>), the
  identifier generator (\<open>str(uuid.uuid4())\<close>) and whether the file write of \<open>_save\<close>
  succeeds.
\<close>

record env =
  utcnow :: datetime
  uuid4 :: string
  save_ok :: bool

section \<open>Timestamps: \<open>datetime.utcnow().isoformat() + 'Z'\<close>\<close>

text \<open>
  \<open>zero_pad w n\<close> is \<open>"%0wd" % n\<close> for \<open>n < 10 ^ w\<close>, the only case \<open>isoformat\<close>
  meets: the fields of a \<open>datetime\<close> are in range by construction.
\<close>

fun zero_pad :: "nat \<Rightarrow> nat \<Rightarrow> string" where
  "zero_pad 0 n = []"
| "zero_pad (Suc w) n = zero_pad w (n div 10) @ [char_of (48 + n mod 10)]"

text \<open>The ranges Python's \<open>datetime\<close> enforces (the day is bounded by 31 for every month).\<close>

definition datetime_ok :: "datetime \<Rightarrow> bool" where
  "datetime_ok d =
     (1 \<le> year d \<and> year d \<le> 9999 \<and> 1 \<le> month d \<and> month d \<le> 12 \<and>
      1 \<le> day d \<and> day d \<le> 31 \<and> hour d < 24 \<and> minute d < 60 \<and> second d < 60 \<and>
      microsecond d < 1000000)"

text \<open>\<open>YYYY-MM-DDTHH:MM:SS\<close>, the part of \<open>isoformat()\<close> that is always printed.\<close>

definition iso_seconds :: "datetime \<Rightarrow> string" where
  "iso_seconds d =
     zero_pad 4 (year d) @ ''-'' @ zero_pad 2 (month d) @ ''-'' @ zero_pad 2 (day d) @ ''T'' @
     zero_pad 2 (hour d) @ '':'' @ zero_pad 2 (minute d) @ '':'' @ zero_pad 2 (second d)"

text \<open>\<open>datetime.isoformat()\<close>: the fraction is printed only when the microsecond is not 0.\<close>

definition isoformat :: "datetime \<Rightarrow> string" where
  "isoformat d =
     iso_seconds d @ (if microsecond d = 0 then [] else ''.'' @ zero_pad 6 (microsecond d))"

text \<open>Chronological order of two clock readings: the field tuples compared left to right.\<close>

definition same_second :: "datetime \<Rightarrow> datetime \<Rightarrow> bool" where
  "same_second a b =
     (year a = year b \<and> month a = month b \<and> day a = day b \<and>
      hour a = hour b \<and> minute a = minute b \<and> second a = second b)"

definition earlier_second :: "datetime \<Rightarrow> datetime \<Rightarrow> bool" where
  "earlier_second a b =
     (year a < year b \<or> (year a = year b \<and>
     (month a < month b \<or> (month a = month b \<and>
     (day a < day b \<or> (day a = day b \<and>
     (hour a < hour b \<or> (hour a = hour b \<and>
     (minute a < minute b \<or> (minute a = minute b \<and> second a < second b))))))))))"

definition earlier :: "datetime \<Rightarrow> datetime \<Rightarrow> bool" where
  "earlier a b = (earlier_second a b \<or> (same_second a b \<and> microsecond a < microsecond b))"

section \<open>Loading and saving\<close>

text \<open>The document \<open>_load\<close> returns when the file does not exist.\<close>

definition seed_document :: document where
  "seed_document =
     \<lparr>tag_schema =
        \<lparr>schema_category = [''work'', ''personal'', ''learning''],
         schema_type = [''project'', ''idea'', ''reference'', ''todo'', ''note''],
         schema_priority =
           [''active'', ''soon'', ''someday'', ''eventually'', ''maybe'', ''not-actionable''],
         schema_topics = [''mcp'', ''ai'', ''coding'', ''design'']\<rparr>,
      all_notes = []\<rparr>"

text \<open>\<open>_load\<close>, on the content of the file (a well-formed document when it exists).\<close>

definition load :: "document option \<Rightarrow> document" where
  "load file = (case file of None \<Rightarrow> seed_document | Some d \<Rightarrow> d)"

text \<open>\<open>NotesStorage(file_path)\<close>.\<close>

definition init :: "document option \<Rightarrow> store" where
  "init file = \<lparr>data = load file, disk = file, save_calls = 0\<rparr>"

text \<open>
  \<open>_save\<close>: the whole document replaces the file atomically, or the write fails, the
  file keeps its content and the exception is raised again.
\<close>

definition save :: "bool \<Rightarrow> store \<Rightarrow> (error + unit) \<times> store" where
  "save ok s =
     (if ok then (Inr (), s\<lparr>disk := Some (data s), save_calls := Suc (save_calls s)\<rparr>)
      else (Inl OSError, s\<lparr>save_calls := Suc (save_calls s)\<rparr>))"

section \<open>Schema operations\<close>

definition get_schema :: "store \<Rightarrow> tag_schema" where
  "get_schema s = tag_schema (data s)"

definition valid_dimensions :: "string list" where
  "valid_dimensions = [''category'', ''type'', ''priority'', ''topics'']"

text \<open>\<open>schema[dimension]\<close>, read and written, for a valid dimension name.\<close>

definition dimension_get :: "string \<Rightarrow> tag_schema \<Rightarrow> string list" where
  "dimension_get dimension schema =
     (if dimension = ''category'' then schema_category schema
      else if dimension = ''type'' then schema_type schema
      else if dimension = ''priority'' then schema_priority schema
      else schema_topics schema)"

definition dimension_set :: "string \<Rightarrow> string list \<Rightarrow> tag_schema \<Rightarrow> tag_schema" where
  "dimension_set dimension v schema =
     (if dimension = ''category'' then schema\<lparr>schema_category := v\<rparr>
      else if dimension = ''type'' then schema\<lparr>schema_type := v\<rparr>
      else if dimension = ''priority'' then schema\<lparr>schema_priority := v\<rparr>
      else schema\<lparr>schema_topics := v\<rparr>)"

text \<open>\<open>', '.join(xs)\<close>.\<close>

fun join :: "string \<Rightarrow> string list \<Rightarrow> string" where
  "join sep [] = []"
| "join sep [x] = x"
| "join sep (x # y # ys) = x @ sep @ join sep (y # ys)"

text \<open>The loop of \<open>add_tags_to_schema\<close> over \<open>tags\<close>, on the list of the dimension.\<close>

fun add_tags :: "string list \<Rightarrow> string list \<Rightarrow> string list" where
  "add_tags dim [] = dim"
| "add_tags dim (tag # rest) = add_tags (if tag \<notin> set dim then dim @ [tag] else dim) rest"

definition add_tags_to_schema ::
  "env \<Rightarrow> string \<Rightarrow> string list \<Rightarrow> store \<Rightarrow> (error + tag_schema) \<times> store" where
  "add_tags_to_schema e dimension tags_arg s =
     (if dimension \<notin> set valid_dimensions then
        (Inl (ValueError (''Invalid dimension '' @ [CHR 0x27] @ dimension @ [CHR 0x27] @
           ''. Must be one of: '' @ join '', '' valid_dimensions)), s)
      else
        let schema = dimension_set dimension
              (add_tags (dimension_get dimension (tag_schema (data s))) tags_arg)
              (tag_schema (data s));
            s1 = s\<lparr>data := (data s)\<lparr>tag_schema := schema\<rparr>\<rparr>
        in case save (save_ok e) s1 of
             (Inl err, s2) \<Rightarrow> (Inl err, s2)
           | (Inr _, s2) \<Rightarrow> (Inr schema, s2))"

text \<open>The loop of \<open>validate_tags\<close> over \<open>topics\<close>.\<close>

fun validate_topics :: "tag_schema \<Rightarrow> string list \<Rightarrow> bool \<times> string" where
  "validate_topics schema [] = (True, [])"
| "validate_topics schema (topic # rest) =
     (if topic \<notin> set (schema_topics schema) then
        (False, ''Invalid topic '' @ [CHR 0x27] @ topic @ [CHR 0x27] @ ''. Must be one of: '' @
           join '', '' (schema_topics schema))
      else validate_topics schema rest)"

text \<open>\<open>validate_tags\<close>: it reads the schema of the store and returns \<open>(is_valid, error_message)\<close>.\<close>

definition validate_tags ::
  "store \<Rightarrow> string option \<Rightarrow> string option \<Rightarrow> string option \<Rightarrow> string list option \<Rightarrow>
   bool \<times> string" where
  "validate_tags s category_arg type_arg priority_arg topics_arg =
     (let schema = tag_schema (data s) in
      if category_arg \<noteq> None \<and> the category_arg \<notin> set (schema_category schema) then
        (False, ''Invalid category '' @ [CHR 0x27] @ the category_arg @ [CHR 0x27] @
           ''. Must be one of: '' @ join '', '' (schema_category schema))
      else if type_arg \<noteq> None \<and> the type_arg \<notin> set (schema_type schema) then
        (False, ''Invalid type '' @ [CHR 0x27] @ the type_arg @ [CHR 0x27] @
           ''. Must be one of: '' @ join '', '' (schema_type schema))
      else if priority_arg \<noteq> None \<and> the priority_arg \<notin> set (schema_priority schema) then
        (False, ''Invalid priority '' @ [CHR 0x27] @ the priority_arg @ [CHR 0x27] @
           ''. Must be one of: '' @ join '', '' (schema_priority schema))
      else case topics_arg of
             None \<Rightarrow> (True, [])
           | Some ts \<Rightarrow> validate_topics schema ts)"

section \<open>Note operations\<close>

text \<open>The timestamp both \<open>create_note\<close> and \<open>update_note\<close> take from the clock.\<close>

definition timestamp :: "datetime \<Rightarrow> string" where
  "timestamp d = isoformat d @ ''Z''"

text \<open>The message of the error for an identifier no note carries.\<close>

definition not_found :: "string \<Rightarrow> error" where
  "not_found i = ValueError (''Note with ID '' @ [CHR 0x27] @ i @ [CHR 0x27] @ '' not found'')"

text \<open>
  \<open>create_note\<close>. The list passed as topics is given by its value; which list object
  the note holds is kept in the section on lists as shared objects.
\<close>

definition create_note ::
  "env \<Rightarrow> string \<Rightarrow> string \<Rightarrow> string \<Rightarrow> string \<Rightarrow> string \<Rightarrow> string list option \<Rightarrow> store \<Rightarrow>
   (error + note_record) \<times> store" where
  "create_note e title_arg content_arg category_arg type_arg priority_arg topics_arg s =
     (let (is_valid, err) =
            validate_tags s (Some category_arg) (Some type_arg) (Some priority_arg) topics_arg
      in if \<not> is_valid then (Inl (ValueError err), s)
      else
        let now = timestamp (utcnow e);
            n = \<lparr>note_id = uuid4 e, title = title_arg, content = content_arg,
                 tags = \<lparr>category = category_arg, type_tag = type_arg, priority = priority_arg,
                         topics = (case topics_arg of None \<Rightarrow> [] | Some ts \<Rightarrow> ts)\<rparr>,
                 created = now, updated = now\<rparr>;
            s1 = s\<lparr>data := (data s)\<lparr>all_notes := all_notes (data s) @ [n]\<rparr>\<rparr>
        in case save (save_ok e) s1 of
             (Inl er, s2) \<Rightarrow> (Inl er, s2)
           | (Inr _, s2) \<Rightarrow> (Inr n, s2))"

text \<open>
  The scans of \<open>read_note\<close>, \<open>update_note\<close> and \<open>delete_note\<close>: the position of the
  first note with the identifier.
\<close>

fun find_index :: "string \<Rightarrow> note_record list \<Rightarrow> nat option" where
  "find_index i [] = None"
| "find_index i (n # ns) =
     (if note_id n = i then Some 0 else map_option Suc (find_index i ns))"

definition read_note :: "string \<Rightarrow> store \<Rightarrow> error + note_record" where
  "read_note i s =
     (case find_index i (all_notes (data s)) of
        None \<Rightarrow> Inl (not_found i)
      | Some k \<Rightarrow> Inr (all_notes (data s) ! k))"

text \<open>
  The assignments of \<open>update_note\<close> to the note it found, the timestamp included. The
  topics are again the value of the list passed.
\<close>

definition update_fields ::
  "string \<Rightarrow> string option \<Rightarrow> string option \<Rightarrow> string option \<Rightarrow> string option \<Rightarrow>
   string option \<Rightarrow> string list option \<Rightarrow> note_record \<Rightarrow> note_record" where
  "update_fields now title_arg content_arg category_arg type_arg priority_arg topics_arg n =
     (let n = (if title_arg \<noteq> None then n\<lparr>title := the title_arg\<rparr> else n);
          n = (if content_arg \<noteq> None then n\<lparr>content := the content_arg\<rparr> else n);
          n = (if category_arg \<noteq> None
               then n\<lparr>tags := (tags n)\<lparr>category := the category_arg\<rparr>\<rparr> else n);
          n = (if type_arg \<noteq> None
               then n\<lparr>tags := (tags n)\<lparr>type_tag := the type_arg\<rparr>\<rparr> else n);
          n = (if priority_arg \<noteq> None
               then n\<lparr>tags := (tags n)\<lparr>priority := the priority_arg\<rparr>\<rparr> else n);
          n = (if topics_arg \<noteq> None
               then n\<lparr>tags := (tags n)\<lparr>topics := the topics_arg\<rparr>\<rparr> else n)
      in n\<lparr>updated := now\<rparr>)"

definition update_note ::
  "env \<Rightarrow> string \<Rightarrow> string option \<Rightarrow> string option \<Rightarrow> string option \<Rightarrow> string option \<Rightarrow>
   string option \<Rightarrow> string list option \<Rightarrow> store \<Rightarrow> (error + note_record) \<times> store" where
  "update_note e i title_arg content_arg category_arg type_arg priority_arg topics_arg s =
     (case find_index i (all_notes (data s)) of
        None \<Rightarrow> (Inl (not_found i), s)
      | Some k \<Rightarrow>
          let (is_valid, err) = validate_tags s category_arg type_arg priority_arg topics_arg
          in if \<not> is_valid then (Inl (ValueError err), s)
          else
            let n = update_fields (timestamp (utcnow e)) title_arg content_arg category_arg
                      type_arg priority_arg topics_arg (all_notes (data s) ! k);
                s1 = s\<lparr>data := (data s)\<lparr>all_notes := (all_notes (data s))[k := n]\<rparr>\<rparr>
            in case save (save_ok e) s1 of
                 (Inl er, s2) \<Rightarrow> (Inl er, s2)
               | (Inr _, s2) \<Rightarrow> (Inr n, s2))"

definition delete_note :: "env \<Rightarrow> string \<Rightarrow> store \<Rightarrow> (error + bool) \<times> store" where
  "delete_note e i s =
     (case find_index i (all_notes (data s)) of
        None \<Rightarrow> (Inl (not_found i), s)
      | Some k \<Rightarrow>
          let ns = all_notes (data s);
              s1 = s\<lparr>data := (data s)\<lparr>all_notes := take k ns @ drop (Suc k) ns\<rparr>\<rparr>
          in case save (save_ok e) s1 of
               (Inl er, s2) \<Rightarrow> (Inl er, s2)
             | (Inr _, s2) \<Rightarrow> (Inr True, s2))"

section \<open>Queries\<close>

text \<open>\<open>sub in s\<close> on strings: \<open>sub\<close> occurs in \<open>s\<close> as a contiguous run.\<close>

fun str_in :: "string \<Rightarrow> string \<Rightarrow> bool" where
  "str_in sub [] = (sub = [])"
| "str_in sub (c # cs) = (take (length sub) (c # cs) = sub \<or> str_in sub cs)"

text \<open>
  One turn of the loop of \<open>find_notes\<close>: each \<open>continue\<close> leaves \<open>results\<close> as it
  is, the last line appends the note. \<open>lower\<close> is Python's \<open>str.lower\<close>, a parameter.
\<close>

definition find_notes_step ::
  "(string \<Rightarrow> string) \<Rightarrow> string option \<Rightarrow> string option \<Rightarrow> string option \<Rightarrow>
   string list option \<Rightarrow> string option \<Rightarrow> string option \<Rightarrow> string option \<Rightarrow> string option \<Rightarrow>
   string option \<Rightarrow> note_record list \<Rightarrow> note_record \<Rightarrow> note_record list" where
  "find_notes_step lower category_arg type_arg priority_arg topics_arg title_contains
     created_after created_before updated_after updated_before results n =
     (if category_arg \<noteq> None \<and> category (tags n) \<noteq> the category_arg then results
      else if type_arg \<noteq> None \<and> type_tag (tags n) \<noteq> the type_arg then results
      else if priority_arg \<noteq> None \<and> priority (tags n) \<noteq> the priority_arg then results
      else if topics_arg \<noteq> None \<and>
              \<not> list_ex (\<lambda>topic. topic \<in> set (topics (tags n))) (the topics_arg) then results
      else if title_contains \<noteq> None \<and>
              \<not> str_in (lower (the title_contains)) (lower (title n)) then results
      else if created_after \<noteq> None \<and> created n < the created_after then results
      else if created_before \<noteq> None \<and> created n > the created_before then results
      else if updated_after \<noteq> None \<and> updated n < the updated_after then results
      else if updated_before \<noteq> None \<and> updated n > the updated_before then results
      else results @ [n])"

definition find_notes ::
  "(string \<Rightarrow> string) \<Rightarrow> string option \<Rightarrow> string option \<Rightarrow> string option \<Rightarrow>
   string list option \<Rightarrow> string option \<Rightarrow> string option \<Rightarrow> string option \<Rightarrow> string option \<Rightarrow>
   string option \<Rightarrow> store \<Rightarrow> note_record list" where
  "find_notes lower category_arg type_arg priority_arg topics_arg title_contains
     created_after created_before updated_after updated_before s =
     foldl (find_notes_step lower category_arg type_arg priority_arg topics_arg title_contains
              created_after created_before updated_after updated_before)
       [] (all_notes (data s))"

text \<open>\<open>str.lower\<close> on ASCII text, for running \<open>find_notes\<close> on examples.\<close>

definition ascii_lower :: "string \<Rightarrow> string" where
  "ascii_lower =
     map (\<lambda>c. if CHR ''A'' \<le> c \<and> c \<le> CHR ''Z'' then char_of (of_char c + (32 :: nat)) else c)"





section \<open>Sequences of operations\<close>

text \<open>A call of one of the four mutating operations, with what it reads from its environment.\<close>

datatype operation =
  CreateNote env string string string string string "string list option"
| UpdateNote env string "string option" "string option" "string option" "string option"
    "string option" "string list option"
| DeleteNote env string
| AddTagsToSchema env string "string list"

text \<open>The store after a call, whether it returned or raised.\<close>

fun apply_operation :: "store \<Rightarrow> operation \<Rightarrow> store" where
  "apply_operation s (CreateNote e t c cat typ pri tops) = snd (create_note e t c cat typ pri tops s)"
| "apply_operation s (UpdateNote e i t c cat typ pri tops) =
     snd (update_note e i t c cat typ pri tops s)"
| "apply_operation s (DeleteNote e i) = snd (delete_note e i s)"
| "apply_operation s (AddTagsToSchema e dimension ts) = snd (add_tags_to_schema e dimension ts s)"

definition run :: "operation list \<Rightarrow> store \<Rightarrow> store" where
  "run ops s = foldl apply_operation s ops"

text \<open>The invariant of the document: every tag of every note is in the schema.\<close>

definition note_in_schema :: "tag_schema \<Rightarrow> note_record \<Rightarrow> bool" where
  "note_in_schema schema n =
     (category (tags n) \<in> set (schema_category schema) \<and>
      type_tag (tags n) \<in> set (schema_type schema) \<and>
      priority (tags n) \<in> set (schema_priority schema) \<and>
      set (topics (tags n)) \<subseteq> set (schema_topics schema))"

definition schema_membership :: "document \<Rightarrow> bool" where
  "schema_membership d = list_all (note_in_schema (tag_schema d)) (all_notes d)"

section \<open>Lists as shared objects\<close>

text \<open>
  A Python list is an object, and the code shares lists with its caller. \<open>get_schema\<close>
  and \<open>add_tags_to_schema\<close> return the schema dictionary itself, with the four lists
  that \<open>add_tags_to_schema\<close> extends in place, and \<open>create_note\<close> and \<open>update_note\<close> store
  the list they are passed as topics, not a copy of it. The definitions above give
  every list by its value, which is what the code does as long as no list passed as
  topics is one of the four lists of the schema. The definitions of this section keep
  the identity of those four lists: a list object is one of them, named by its
  dimension, or any other list, which no operation changes and which is given by its
  value.
\<close>

datatype list_object = Schema_list string | Other_list "string list"

text \<open>A note dictionary, with the list object under \<open>note["tags"]["topics"]\<close>.\<close>

record note_object =
  object_id :: string
  object_title :: string
  object_content :: string
  object_category :: string
  object_type :: string
  object_priority :: string
  object_topics :: list_object
  object_created :: string
  object_updated :: string

text \<open>
  The storage object: the schema with its four lists, the note dictionaries, the content
  of the file and the number of calls of \<open>_save\<close>.
\<close>

record object_store =
  schema_lists :: tag_schema
  note_objects :: "note_object list"
  object_disk :: "document option"
  object_save_calls :: nat

text \<open>
  The elements a list object holds now. A list of the schema is named by one of the four
  dimension names, which \<open>dimension_get\<close> resolves.
\<close>

definition contents :: "tag_schema \<Rightarrow> list_object \<Rightarrow> string list" where
  "contents schema l =
     (case l of Schema_list dimension \<Rightarrow> dimension_get dimension schema | Other_list xs \<Rightarrow> xs)"

text \<open>
  What reading a note, the document or the store gives now: each topics list by its
  current elements. This is also what \<open>json.dump\<close> writes.
\<close>

definition note_reading :: "tag_schema \<Rightarrow> note_object \<Rightarrow> note_record" where
  "note_reading schema n =
     \<lparr>note_id = object_id n, title = object_title n, content = object_content n,
      tags = \<lparr>category = object_category n, type_tag = object_type n,
              priority = object_priority n, topics = contents schema (object_topics n)\<rparr>,
      created = object_created n, updated = object_updated n\<rparr>"

definition document_reading :: "object_store \<Rightarrow> document" where
  "document_reading s =
     \<lparr>tag_schema = schema_lists s,
      all_notes = map (note_reading (schema_lists s)) (note_objects s)\<rparr>"

definition store_reading :: "object_store \<Rightarrow> store" where
  "store_reading s =
     \<lparr>data = document_reading s, disk = object_disk s, save_calls = object_save_calls s\<rparr>"

text \<open>
  A note, and a store, whose topic lists are no list of the schema; \<open>_load\<close> builds such a
  store, the lists of a file being fresh objects.
\<close>

definition note_object_of :: "note_record \<Rightarrow> note_object" where
  "note_object_of n =
     \<lparr>object_id = note_id n, object_title = title n, object_content = content n,
      object_category = category (tags n), object_type = type_tag (tags n),
      object_priority = priority (tags n), object_topics = Other_list (topics (tags n)),
      object_created = created n, object_updated = updated n\<rparr>"

definition store_objects :: "store \<Rightarrow> object_store" where
  "store_objects s =
     \<lparr>schema_lists = tag_schema (data s),
      note_objects = map note_object_of (all_notes (data s)),
      object_disk = disk s, object_save_calls = save_calls s\<rparr>"

definition init_object :: "document option \<Rightarrow> object_store" where
  "init_object file = store_objects (init file)"

text \<open>\<open>_save\<close>, writing what the document reads as.\<close>

definition save_object :: "bool \<Rightarrow> object_store \<Rightarrow> (error + unit) \<times> object_store" where
  "save_object ok s =
     (if ok then
        (Inr (), s\<lparr>object_disk := Some (document_reading s),
                   object_save_calls := Suc (object_save_calls s)\<rparr>)
      else (Inl OSError, s\<lparr>object_save_calls := Suc (object_save_calls s)\<rparr>))"

text \<open>
  \<open>add_tags_to_schema\<close>: the appends go to the list of the schema itself, so every note
  that holds that list object reads the new elements. The tags given are only read.
\<close>

definition add_tags_to_schema_object ::
  "env \<Rightarrow> string \<Rightarrow> string list \<Rightarrow> object_store \<Rightarrow> (error + tag_schema) \<times> object_store" where
  "add_tags_to_schema_object e dimension tags_arg s =
     (if dimension \<notin> set valid_dimensions then
        (Inl (ValueError (''Invalid dimension '' @ [CHR 0x27] @ dimension @ [CHR 0x27] @
           ''. Must be one of: '' @ join '', '' valid_dimensions)), s)
      else
        let schema = dimension_set dimension
              (add_tags (dimension_get dimension (schema_lists s)) tags_arg) (schema_lists s);
            s1 = s\<lparr>schema_lists := schema\<rparr>
        in case save_object (save_ok e) s1 of
             (Inl err, s2) \<Rightarrow> (Inl err, s2)
           | (Inr _, s2) \<Rightarrow> (Inr schema, s2))"

text \<open>\<open>validate_tags\<close> reads the elements of the list it is passed.\<close>

definition validate_tags_object ::
  "object_store \<Rightarrow> string option \<Rightarrow> string option \<Rightarrow> string option \<Rightarrow> list_object option \<Rightarrow>
   bool \<times> string" where
  "validate_tags_object s category_arg type_arg priority_arg topics_arg =
     validate_tags (store_reading s) category_arg type_arg priority_arg
       (map_option (contents (schema_lists s)) topics_arg)"

text \<open>
  \<open>create_note\<close>: \<open>topics or []\<close> is the list object passed, unless that list is empty
  (or none is passed), when it is a new empty list.
\<close>

definition create_note_object ::
  "env \<Rightarrow> string \<Rightarrow> string \<Rightarrow> string \<Rightarrow> string \<Rightarrow> string \<Rightarrow> list_object option \<Rightarrow> object_store \<Rightarrow>
   (error + note_object) \<times> object_store" where
  "create_note_object e title_arg content_arg category_arg type_arg priority_arg topics_arg s =
     (let (is_valid, err) =
            validate_tags_object s (Some category_arg) (Some type_arg) (Some priority_arg)
              topics_arg
      in if \<not> is_valid then (Inl (ValueError err), s)
      else
        let now = timestamp (utcnow e);
            n = \<lparr>object_id = uuid4 e, object_title = title_arg, object_content = content_arg,
                 object_category = category_arg, object_type = type_arg,
                 object_priority = priority_arg,
                 object_topics =
                   (case topics_arg of
                      None \<Rightarrow> Other_list []
                    | Some l \<Rightarrow> if contents (schema_lists s) l = [] then Other_list [] else l),
                 object_created = now, object_updated = now\<rparr>;
            s1 = s\<lparr>note_objects := note_objects s @ [n]\<rparr>
        in case save_object (save_ok e) s1 of
             (Inl er, s2) \<Rightarrow> (Inl er, s2)
           | (Inr _, s2) \<Rightarrow> (Inr n, s2))"

text \<open>The scan for an identifier, on the note dictionaries.\<close>

fun find_object :: "string \<Rightarrow> note_object list \<Rightarrow> nat option" where
  "find_object i [] = None"
| "find_object i (n # ns) =
     (if object_id n = i then Some 0 else map_option Suc (find_object i ns))"

text \<open>
  The assignments of \<open>update_note\<close>: \<open>note["tags"]["topics"] = topics\<close> stores the list
  object passed.
\<close>

definition update_fields_object ::
  "string \<Rightarrow> string option \<Rightarrow> string option \<Rightarrow> string option \<Rightarrow> string option \<Rightarrow>
   string option \<Rightarrow> list_object option \<Rightarrow> note_object \<Rightarrow> note_object" where
  "update_fields_object now title_arg content_arg category_arg type_arg priority_arg topics_arg n =
     (let n = (if title_arg \<noteq> None then n\<lparr>object_title := the title_arg\<rparr> else n);
          n = (if content_arg \<noteq> None then n\<lparr>object_content := the content_arg\<rparr> else n);
          n = (if category_arg \<noteq> None then n\<lparr>object_category := the category_arg\<rparr> else n);
          n = (if type_arg \<noteq> None then n\<lparr>object_type := the type_arg\<rparr> else n);
          n = (if priority_arg \<noteq> None then n\<lparr>object_priority := the priority_arg\<rparr> else n);
          n = (if topics_arg \<noteq> None then n\<lparr>object_topics := the topics_arg\<rparr> else n)
      in n\<lparr>object_updated := now\<rparr>)"

definition update_note_object ::
  "env \<Rightarrow> string \<Rightarrow> string option \<Rightarrow> string option \<Rightarrow> string option \<Rightarrow> string option \<Rightarrow>
   string option \<Rightarrow> list_object option \<Rightarrow> object_store \<Rightarrow>
   (error + note_object) \<times> object_store" where
  "update_note_object e i title_arg content_arg category_arg type_arg priority_arg topics_arg s =
     (case find_object i (note_objects s) of
        None \<Rightarrow> (Inl (not_found i), s)
      | Some k \<Rightarrow>
          let (is_valid, err) =
                validate_tags_object s category_arg type_arg priority_arg topics_arg
          in if \<not> is_valid then (Inl (ValueError err), s)
          else
            let n = update_fields_object (timestamp (utcnow e)) title_arg content_arg
                      category_arg type_arg priority_arg topics_arg (note_objects s ! k);
                s1 = s\<lparr>note_objects := (note_objects s)[k := n]\<rparr>
            in case save_object (save_ok e) s1 of
                 (Inl er, s2) \<Rightarrow> (Inl er, s2)
               | (Inr _, s2) \<Rightarrow> (Inr n, s2))"

definition delete_note_object ::
  "env \<Rightarrow> string \<Rightarrow> object_store \<Rightarrow> (error + bool) \<times> object_store" where
  "delete_note_object e i s =
     (case find_object i (note_objects s) of
        None \<Rightarrow> (Inl (not_found i), s)
      | Some k \<Rightarrow>
          let ns = note_objects s;
              s1 = s\<lparr>note_objects := take k ns @ drop (Suc k) ns\<rparr>
          in case save_object (save_ok e) s1 of
               (Inl er, s2) \<Rightarrow> (Inl er, s2)
             | (Inr _, s2) \<Rightarrow> (Inr True, s2))"

text \<open>Calls of the four mutating operations, and the store after a sequence of them.\<close>

datatype object_operation =
  CreateNoteObject env string string string string string "list_object option"
| UpdateNoteObject env string "string option" "string option" "string option" "string option"
    "string option" "list_object option"
| DeleteNoteObject env string
| AddTagsToSchemaObject env string "string list"

fun apply_object_operation :: "object_store \<Rightarrow> object_operation \<Rightarrow> object_store" where
  "apply_object_operation s (CreateNoteObject e t c cat typ pri tops) =
     snd (create_note_object e t c cat typ pri tops s)"
| "apply_object_operation s (UpdateNoteObject e i t c cat typ pri tops) =
     snd (update_note_object e i t c cat typ pri tops s)"
| "apply_object_operation s (DeleteNoteObject e i) = snd (delete_note_object e i s)"
| "apply_object_operation s (AddTagsToSchemaObject e dimension ts) =
     snd (add_tags_to_schema_object e dimension ts s)"

definition run_objects :: "object_operation list \<Rightarrow> object_store \<Rightarrow> object_store" where
  "run_objects ops s = foldl apply_object_operation s ops"

text \<open>A call whose topics, if any, are a list that is no list of the schema.\<close>

fun by_value :: "operation \<Rightarrow> object_operation" where
  "by_value (CreateNote e t c cat typ pri tops) =
     CreateNoteObject e t c cat typ pri (map_option Other_list tops)"
| "by_value (UpdateNote e i t c cat typ pri tops) =
     UpdateNoteObject e i t c cat typ pri (map_option Other_list tops)"
| "by_value (DeleteNote e i) = DeleteNoteObject e i"
| "by_value (AddTagsToSchema e dimension ts) = AddTagsToSchemaObject e dimension ts"

section \<open>The specification's vocabulary\<close>

text \<open>
  The message of a validation error: it names the field, quotes the offending value and
  lists the valid values of one dimension, separated by a comma and a space.
\<close>

definition invalid_message :: "string \<Rightarrow> string \<Rightarrow> string list \<Rightarrow> string" where
  "invalid_message field v dim =
     ''Invalid '' @ field @ '' '' @ [CHR 0x27] @ v @ [CHR 0x27] @ ''. Must be one of: '' @
     join '', '' dim"

text \<open>A field that is omitted, or provided with a value of the dimension.\<close>

definition absent_or_member :: "string option \<Rightarrow> string list \<Rightarrow> bool" where
  "absent_or_member x dim = (case x of None \<Rightarrow> True | Some v \<Rightarrow> v \<in> set dim)"

text \<open>
  What \<open>find_notes\<close> is specified to return a note for: every filter that is provided
  holds (a conjunction), the topics filter holding when the note carries at least one of
  the requested topics, the title filter when the lowered text occurs in the lowered
  title, and the date filters being inclusive bounds in the order of strings.
\<close>

definition note_matches ::
  "(string \<Rightarrow> string) \<Rightarrow> string option \<Rightarrow> string option \<Rightarrow> string option \<Rightarrow>
   string list option \<Rightarrow> string option \<Rightarrow> string option \<Rightarrow> string option \<Rightarrow> string option \<Rightarrow>
   string option \<Rightarrow> note_record \<Rightarrow> bool" where
  "note_matches lower category_arg type_arg priority_arg topics_arg title_contains
     created_after created_before updated_after updated_before n =
     ((case category_arg of None \<Rightarrow> True | Some c \<Rightarrow> category (tags n) = c) \<and>
      (case type_arg of None \<Rightarrow> True | Some t \<Rightarrow> type_tag (tags n) = t) \<and>
      (case priority_arg of None \<Rightarrow> True | Some p \<Rightarrow> priority (tags n) = p) \<and>
      (case topics_arg of None \<Rightarrow> True
       | Some ts \<Rightarrow> \<exists>topic \<in> set ts. topic \<in> set (topics (tags n))) \<and>
      (case title_contains of None \<Rightarrow> True
       | Some sub \<Rightarrow> \<exists>before after. lower (title n) = before @ lower sub @ after) \<and>
      (case created_after of None \<Rightarrow> True | Some b \<Rightarrow> b \<le> created n) \<and>
      (case created_before of None \<Rightarrow> True | Some b \<Rightarrow> created n \<le> b) \<and>
      (case updated_after of None \<Rightarrow> True | Some b \<Rightarrow> b \<le> updated n) \<and>
      (case updated_before of None \<Rightarrow> True | Some b \<Rightarrow> updated n \<le> b))"



text \<open>
  The valid values of a dimension as a message lists them: the values in their order,
  with a comma and a space between each two.
\<close>

definition enumeration :: "string list \<Rightarrow> string" where
  "enumeration dim = concat (butlast (concat (map (\<lambda>v. [v, '', '']) dim)))"

text \<open>
  Reading a list back: \<open>split_list\<close> cuts a text at each comma followed by a space, from
  left to right, as \<open>str.split(', ')\<close> does.
\<close>

fun split_list :: "string \<Rightarrow> string list" where
  "split_list [] = [[]]"
| "split_list [c] = [[c]]"
| "split_list (c # d # cs) =
     (if c = CHR '','' \<and> d = CHR '' '' then [] # split_list cs
      else case split_list (d # cs) of
             [] \<Rightarrow> [[c]]
           | w # ws \<Rightarrow> (c # w) # ws)"

section \<open>Example inputs\<close>

text \<open>Two clock readings one microsecond apart, the first on a whole second.\<close>

definition clock0 :: datetime where
  "clock0 = \<lparr>year = 2024, month = 1, day = 1, hour = 0, minute = 0, second = 0, microsecond = 0\<rparr>"

definition clock1 :: datetime where
  "clock1 = \<lparr>year = 2024, month = 1, day = 1, hour = 0, minute = 0, second = 0, microsecond = 1\<rparr>"

definition env0 :: env where
  "env0 = \<lparr>utcnow = clock0, uuid4 = ''n1'', save_ok = True\<rparr>"

definition env1 :: env where
  "env1 = \<lparr>utcnow = clock1, uuid4 = ''n2'', save_ok = True\<rparr>"

text \<open>The store after one note was created in a fresh store.\<close>

definition store1 :: store where
  "store1 =
     snd (create_note env0 ''Plan'' ''Body'' ''work'' ''todo'' ''active'' (Some [''mcp''])
            (init None))"

text \<open>The note of \<open>store1\<close>.\<close>

definition note1 :: note_record where
  "note1 =
     \<lparr>note_id = ''n1'', title = ''Plan'', content = ''Body'',
      tags = \<lparr>category = ''work'', type_tag = ''todo'', priority = ''active'', topics = [''mcp'']\<rparr>,
      created = ''2024-01-01T00:00:00Z'', updated = ''2024-01-01T00:00:00Z''\<rparr>"

text \<open>A second note, and the store after it was created in \<open>store1\<close>.\<close>

definition note2 :: note_record where
  "note2 =
     \<lparr>note_id = ''n2'', title = ''Sketch'', content = ''Text'',
      tags = \<lparr>category = ''personal'', type_tag = ''idea'', priority = ''soon'',
              topics = [''ai'', ''design'']\<rparr>,
      created = ''2024-01-01T00:00:00.000001Z'', updated = ''2024-01-01T00:00:00.000001Z''\<rparr>"

definition store2 :: store where
  "store2 =
     snd (create_note env1 ''Sketch'' ''Text'' ''personal'' ''idea'' ''soon''
            (Some [''ai'', ''design'']) store1)"




text \<open>A clock reading one second after the first, and a call that reads it.\<close>

definition clock2 :: datetime where
  "clock2 = \<lparr>year = 2024, month = 1, day = 1, hour = 0, minute = 0, second = 1, microsecond = 0\<rparr>"

definition env3 :: env where
  "env3 = \<lparr>utcnow = clock2, uuid4 = ''n4'', save_ok = True\<rparr>"



text \<open>
  Three calls that pass one of the schema's own lists back: the category values are
  added to the topics, a note is created with the category list of the schema as its
  topics, and a category is added. With them, the schema after the first call and the
  note the second call returns.
\<close>

definition shared_calls :: "object_operation list" where
  "shared_calls =
     [AddTagsToSchemaObject env0 ''topics'' [''work'', ''personal'', ''learning''],
      CreateNoteObject env0 ''Plan'' ''Body'' ''work'' ''todo'' ''active''
        (Some (Schema_list ''category'')),
      AddTagsToSchemaObject env1 ''category'' [''home'']]"

definition shared_note :: note_object where
  "shared_note =
     \<lparr>object_id = ''n1'', object_title = ''Plan'', object_content = ''Body'',
      object_category = ''work'', object_type = ''todo'', object_priority = ''active'',
      object_topics = Schema_list ''category'',
      object_created = ''2024-01-01T00:00:00Z'', object_updated = ''2024-01-01T00:00:00Z''\<rparr>"

definition shared_schema :: tag_schema where
  "shared_schema =
     (tag_schema seed_document)
       \<lparr>schema_topics := [''mcp'', ''ai'', ''coding'', ''design'', ''work'', ''personal'',
                           ''learning'']\<rparr>"

section \<open>Properties of the scans and of validation\<close>

lemma find_index_None: "find_index i ns = None \<longleftrightarrow> i \<notin> note_id ` set ns"
  by (induction ns) auto

lemma find_index_Some:
  "find_index i ns = Some k \<Longrightarrow> k < length ns \<and> note_id (ns ! k) = i"
  by (induction ns arbitrary: k) (auto split: if_splits)

lemma validate_topics_ok:
  "set ts \<subseteq> set (schema_topics schema) \<Longrightarrow> validate_topics schema ts = (True, [])"
  by (induction ts) auto

lemma validate_topics_first_invalid:
  "set pre \<subseteq> set (schema_topics schema) \<Longrightarrow> topic \<notin> set (schema_topics schema) \<Longrightarrow>
   validate_topics schema (pre @ topic # post) =
     (False, invalid_message ''topic'' topic (schema_topics schema))"
  by (induction pre) (auto simp: invalid_message_def)

lemma validate_topics_fst:
  "fst (validate_topics schema ts) \<longleftrightarrow> set ts \<subseteq> set (schema_topics schema)"
  by (induction ts) auto

section \<open>Evaluating timestamps and the example store\<close>

lemma digit_chars:
  "char_of (48::nat) = CHR ''0''" "char_of (49::nat) = CHR ''1''" "char_of (50::nat) = CHR ''2''"
  "char_of (51::nat) = CHR ''3''" "char_of (52::nat) = CHR ''4''" "char_of (53::nat) = CHR ''5''"
  "char_of (54::nat) = CHR ''6''" "char_of (55::nat) = CHR ''7''" "char_of (56::nat) = CHR ''8''"
  "char_of (57::nat) = CHR ''9''"
  by code_simp+

lemma zero_pad_2: "zero_pad 2 n = [char_of (48 + n div 10 mod 10), char_of (48 + n mod 10)]"
proof -
  have e: "(2::nat) = Suc (Suc 0)" by simp
  show ?thesis unfolding e by simp
qed

lemma zero_pad_4:
  "zero_pad 4 n =
     [char_of (48 + n div 10 div 10 div 10 mod 10), char_of (48 + n div 10 div 10 mod 10),
      char_of (48 + n div 10 mod 10), char_of (48 + n mod 10)]"
proof -
  have e: "(4::nat) = Suc (Suc (Suc (Suc 0)))" by simp
  show ?thesis unfolding e by simp
qed

lemma zero_pad_6:
  "zero_pad 6 n =
     [char_of (48 + n div 10 div 10 div 10 div 10 div 10 mod 10),
      char_of (48 + n div 10 div 10 div 10 div 10 mod 10),
      char_of (48 + n div 10 div 10 div 10 mod 10), char_of (48 + n div 10 div 10 mod 10),
      char_of (48 + n div 10 mod 10), char_of (48 + n mod 10)]"
proof -
  have e: "(6::nat) = Suc (Suc (Suc (Suc (Suc (Suc 0)))))" by simp
  show ?thesis unfolding e by simp
qed

lemma timestamp_clock0: "timestamp clock0 = ''2024-01-01T00:00:00Z''"
  by (simp add: timestamp_def isoformat_def iso_seconds_def clock0_def zero_pad_2 zero_pad_4
      digit_chars)

lemma timestamp_clock1: "timestamp clock1 = ''2024-01-01T00:00:00.000001Z''"
  by (simp add: timestamp_def isoformat_def iso_seconds_def clock1_def zero_pad_2 zero_pad_4
      zero_pad_6 digit_chars)

lemma store1_eq:
  "store1 =
     \<lparr>data = \<lparr>tag_schema = tag_schema seed_document, all_notes = [note1]\<rparr>,
      disk = Some \<lparr>tag_schema = tag_schema seed_document, all_notes = [note1]\<rparr>,
      save_calls = 1\<rparr>"
  by (simp add: store1_def create_note_def validate_tags_def init_def load_def seed_document_def
      env0_def timestamp_clock0 save_def note1_def Let_def)

section \<open>Errors\<close>

text \<open>
  C10. In \<open>update_note\<close> the lookup of the identifier comes before the validation of the
  tags: for an identifier that no stored note carries the call raises the not-found
  error and leaves the store as it was, whatever the other arguments are, so also
  when the tags provided are not in the schema.
\<close>

theorem update_note_not_found_wins:
  "i \<notin> note_id ` set (all_notes (data s)) \<Longrightarrow>
   update_note e i title_arg content_arg category_arg type_arg priority_arg topics_arg s =
     (Inl (not_found i), s)"
proof -
  assume "i \<notin> note_id ` set (all_notes (data s))"
  then have "find_index i (all_notes (data s)) = None"
    by (simp add: find_index_None)
  then show ?thesis
    by (simp add: update_note_def)
qed

theorem update_note_not_found_wins_witness:
  "''n7'' \<notin> note_id ` set (all_notes (data store1)) \<and>
   validate_tags store1 (Some ''home'') None None None =
     (False, invalid_message ''category'' ''home'' [''work'', ''personal'', ''learning'']) \<and>
   update_note env1 ''n7'' None None (Some ''home'') None None None store1 =
     (Inl (ValueError (''Note with ID '' @ [CHR 0x27] @ ''n7'' @ [CHR 0x27] @ '' not found'')),
      store1)"
  using update_note_not_found_wins
    [of "''n7''" store1 env1 None None "Some ''home''" None None None]
  by (simp add: store1_eq note1_def seed_document_def validate_tags_def not_found_def
      invalid_message_def)

text \<open>
  C2. Failure atomicity: when \<open>create_note\<close>, \<open>update_note\<close> or \<open>delete_note\<close> raises
  a \<open>ValueError\<close> (the validation error for a tag outside the schema, or the not-found
  error), the store after the call is the store before it: the document in memory, the
  file and the number of calls of \<open>_save\<close> are unchanged.
\<close>

theorem failure_atomicity:
  "(create_note e title_arg content_arg category_arg type_arg priority_arg topics_arg s =
      (Inl (ValueError m), s') \<longrightarrow> s' = s) \<and>
   (update_note e' i title_opt content_opt category_opt type_opt priority_opt topics_opt s =
      (Inl (ValueError m), s') \<longrightarrow> s' = s) \<and>
   (delete_note e'' i' s = (Inl (ValueError m), s') \<longrightarrow> s' = s)"
  by (auto simp: create_note_def update_note_def delete_note_def save_def Let_def
      split: prod.splits option.splits if_splits)

theorem failure_atomicity_witness:
  "create_note env0 ''T'' ''C'' ''home'' ''todo'' ''active'' None store1 =
     (Inl (ValueError (invalid_message ''category'' ''home''
        [''work'', ''personal'', ''learning''])), store1) \<and>
   update_note env1 ''n1'' None None None (Some ''essay'') None None store1 =
     (Inl (ValueError (invalid_message ''type'' ''essay''
        [''project'', ''idea'', ''reference'', ''todo'', ''note''])), store1) \<and>
   delete_note env1 ''n7'' store1 = (Inl (not_found ''n7''), store1)"
proof -
  have c: "fst (create_note env0 ''T'' ''C'' ''home'' ''todo'' ''active'' None store1) =
     Inl (ValueError (invalid_message ''category'' ''home''
        [''work'', ''personal'', ''learning'']))"
    by (simp add: store1_eq create_note_def validate_tags_def seed_document_def
        invalid_message_def Let_def)
  have u: "fst (update_note env1 ''n1'' None None None (Some ''essay'') None None store1) =
     Inl (ValueError (invalid_message ''type'' ''essay''
        [''project'', ''idea'', ''reference'', ''todo'', ''note'']))"
    by (simp add: store1_eq update_note_def validate_tags_def seed_document_def
        invalid_message_def note1_def Let_def)
  have d: "fst (delete_note env1 ''n7'' store1) = Inl (not_found ''n7'')"
    by (simp add: store1_eq delete_note_def note1_def Let_def)
  show ?thesis
    using c u d
      failure_atomicity [of env0 "''T''" "''C''" "''home''" "''todo''" "''active''" None store1
        "invalid_message ''category'' ''home'' [''work'', ''personal'', ''learning'']"
        "snd (create_note env0 ''T'' ''C'' ''home'' ''todo'' ''active'' None store1)"]
      failure_atomicity [where e' = env1 and i = "''n1''" and title_opt = None
        and content_opt = None and category_opt = None and type_opt = "Some ''essay''"
        and priority_opt = None and topics_opt = None and s = store1
        and m = "invalid_message ''type'' ''essay''
                   [''project'', ''idea'', ''reference'', ''todo'', ''note'']"
        and s' = "snd (update_note env1 ''n1'' None None None (Some ''essay'') None None store1)"]
      failure_atomicity [where e'' = env1 and i' = "''n7''" and s = store1
        and m = "''Note with ID '' @ [CHR 0x27] @ ''n7'' @ [CHR 0x27] @ '' not found''"
        and s' = "snd (delete_note env1 ''n7'' store1)"]
    by (simp add: prod_eq_iff not_found_def)
qed

section \<open>Validation\<close>

text \<open>
  The list \<open>join\<close> builds is the enumeration of the values, and for values without a
  comma the values are read back from it.
\<close>

lemma join_enumeration: "join '', '' dim = enumeration dim"
proof (induction "'', ''" dim rule: join.induct)
  case 1
  then show ?case by (simp add: enumeration_def)
next
  case (2 x)
  then show ?case by (simp add: enumeration_def)
next
  case (3 x y ys)
  then show ?case by (simp add: enumeration_def)
qed

lemma split_list_word: "CHR '','' \<notin> set x \<Longrightarrow> split_list x = [x]"
  by (induction x rule: split_list.induct) auto

lemma split_list_append:
  "CHR '','' \<notin> set x \<Longrightarrow> split_list (x @ CHR '','' # CHR '' '' # r) = x # split_list r"
proof (induction x)
  case Nil
  then show ?case by simp
next
  case (Cons c x)
  then show ?case by (cases x) auto
qed

lemma split_list_join:
  "dim \<noteq> [] \<Longrightarrow> \<forall>v \<in> set dim. CHR '','' \<notin> set v \<Longrightarrow> split_list (join '', '' dim) = dim"
proof (induction "'', ''" dim rule: join.induct)
  case 1
  then show ?case by simp
next
  case (2 x)
  then show ?case by (simp add: split_list_word)
next
  case (3 x y ys)
  then show ?case by (simp add: split_list_append del: split_list.simps)
qed

lemma split_list_enumeration:
  "dim \<noteq> [] \<Longrightarrow> \<forall>v \<in> set dim. CHR '','' \<notin> set v \<Longrightarrow> split_list (enumeration dim) = dim"
  using split_list_join [of dim] by (simp add: join_enumeration)

text \<open>
  C7. \<open>validate_tags\<close> is a function of the schema and of its four arguments and
  returns only the verdict and the message (it has no store to return, so it changes
  none). With every field omitted it accepts. Otherwise the fields are checked in the
  order category, type, priority, topics, an omitted field passing, and the first value
  that is not in its dimension decides: the result is invalid and the message names
  that field, quotes that value and enumerates all values of that dimension, and of
  no other, in their order. For the topics the first topic of the list that is not in
  the schema is the one reported. The enumeration holds the full set: when no value
  contains a comma, cutting it at the separators gives back the list of the dimension.
\<close>

theorem validate_tags_order:
  "validate_tags s None None None None = (True, []) \<and>
   (\<not> absent_or_member category_arg (schema_category (get_schema s)) \<longrightarrow>
     validate_tags s category_arg type_arg priority_arg topics_arg =
       (False, ''Invalid category '' @ [CHR 0x27] @ the category_arg @ [CHR 0x27] @
               ''. Must be one of: '' @ enumeration (schema_category (get_schema s)))) \<and>
   (absent_or_member category_arg (schema_category (get_schema s)) \<and>
    \<not> absent_or_member type_arg (schema_type (get_schema s)) \<longrightarrow>
     validate_tags s category_arg type_arg priority_arg topics_arg =
       (False, ''Invalid type '' @ [CHR 0x27] @ the type_arg @ [CHR 0x27] @
               ''. Must be one of: '' @ enumeration (schema_type (get_schema s)))) \<and>
   (absent_or_member category_arg (schema_category (get_schema s)) \<and>
    absent_or_member type_arg (schema_type (get_schema s)) \<and>
    \<not> absent_or_member priority_arg (schema_priority (get_schema s)) \<longrightarrow>
     validate_tags s category_arg type_arg priority_arg topics_arg =
       (False, ''Invalid priority '' @ [CHR 0x27] @ the priority_arg @ [CHR 0x27] @
               ''. Must be one of: '' @ enumeration (schema_priority (get_schema s)))) \<and>
   (absent_or_member category_arg (schema_category (get_schema s)) \<and>
    absent_or_member type_arg (schema_type (get_schema s)) \<and>
    absent_or_member priority_arg (schema_priority (get_schema s)) \<and>
    set pre \<subseteq> set (schema_topics (get_schema s)) \<and> topic \<notin> set (schema_topics (get_schema s)) \<longrightarrow>
     validate_tags s category_arg type_arg priority_arg (Some (pre @ topic # post)) =
       (False, ''Invalid topic '' @ [CHR 0x27] @ topic @ [CHR 0x27] @
               ''. Must be one of: '' @ enumeration (schema_topics (get_schema s)))) \<and>
   (absent_or_member category_arg (schema_category (get_schema s)) \<and>
    absent_or_member type_arg (schema_type (get_schema s)) \<and>
    absent_or_member priority_arg (schema_priority (get_schema s)) \<and>
    (case topics_arg of None \<Rightarrow> True | Some ts \<Rightarrow> set ts \<subseteq> set (schema_topics (get_schema s))) \<longrightarrow>
     validate_tags s category_arg type_arg priority_arg topics_arg = (True, [])) \<and>
   (dim \<noteq> [] \<and> (\<forall>v \<in> set dim. CHR '','' \<notin> set v) \<longrightarrow> split_list (enumeration dim) = dim)"
proof -
  have h_none: "validate_tags s None None None None = (True, [])"
    by (simp add: validate_tags_def)
  have h_cat: "validate_tags s category_arg type_arg priority_arg topics_arg =
       (False, ''Invalid category '' @ [CHR 0x27] @ the category_arg @ [CHR 0x27] @
               ''. Must be one of: '' @ enumeration (schema_category (get_schema s)))"
    if "\<not> absent_or_member category_arg (schema_category (get_schema s))"
    using that
    by (auto simp: validate_tags_def absent_or_member_def get_schema_def join_enumeration
        split: option.splits)
  have h_type: "validate_tags s category_arg type_arg priority_arg topics_arg =
       (False, ''Invalid type '' @ [CHR 0x27] @ the type_arg @ [CHR 0x27] @
               ''. Must be one of: '' @ enumeration (schema_type (get_schema s)))"
    if "absent_or_member category_arg (schema_category (get_schema s))"
       "\<not> absent_or_member type_arg (schema_type (get_schema s))"
    using that
    by (auto simp: validate_tags_def absent_or_member_def get_schema_def join_enumeration
        split: option.splits)
  have h_pri: "validate_tags s category_arg type_arg priority_arg topics_arg =
       (False, ''Invalid priority '' @ [CHR 0x27] @ the priority_arg @ [CHR 0x27] @
               ''. Must be one of: '' @ enumeration (schema_priority (get_schema s)))"
    if "absent_or_member category_arg (schema_category (get_schema s))"
       "absent_or_member type_arg (schema_type (get_schema s))"
       "\<not> absent_or_member priority_arg (schema_priority (get_schema s))"
    using that
    by (auto simp: validate_tags_def absent_or_member_def get_schema_def join_enumeration
        split: option.splits)
  have h_topic: "validate_tags s category_arg type_arg priority_arg (Some (pre @ topic # post)) =
       (False, ''Invalid topic '' @ [CHR 0x27] @ topic @ [CHR 0x27] @
               ''. Must be one of: '' @ enumeration (schema_topics (get_schema s)))"
    if "absent_or_member category_arg (schema_category (get_schema s))"
       "absent_or_member type_arg (schema_type (get_schema s))"
       "absent_or_member priority_arg (schema_priority (get_schema s))"
       "set pre \<subseteq> set (schema_topics (get_schema s))"
       "topic \<notin> set (schema_topics (get_schema s))"
    using that validate_topics_first_invalid [of pre "tag_schema (data s)" topic post]
    by (auto simp: validate_tags_def absent_or_member_def get_schema_def invalid_message_def
        join_enumeration split: option.splits)
  have h_ok: "validate_tags s category_arg type_arg priority_arg topics_arg = (True, [])"
    if "absent_or_member category_arg (schema_category (get_schema s))"
       "absent_or_member type_arg (schema_type (get_schema s))"
       "absent_or_member priority_arg (schema_priority (get_schema s))"
       "case topics_arg of None \<Rightarrow> True | Some ts \<Rightarrow> set ts \<subseteq> set (schema_topics (get_schema s))"
    using that
    by (auto simp: validate_tags_def absent_or_member_def get_schema_def validate_topics_ok
        split: option.splits)
  have h_split: "split_list (enumeration dim) = dim"
    if "dim \<noteq> []" "\<forall>v \<in> set dim. CHR '','' \<notin> set v"
    using that by (rule split_list_enumeration)
  from h_none h_cat h_type h_pri h_topic h_ok h_split show ?thesis by blast
qed

theorem validate_tags_order_witness:
  "validate_tags (init None) None None None None = (True, []) \<and>
   validate_tags (init None) (Some ''home'') (Some ''essay'') (Some ''now'') (Some [''cooking'']) =
     (False, ''Invalid category '' @ [CHR 0x27] @ ''home'' @ [CHR 0x27] @
             ''. Must be one of: work, personal, learning'') \<and>
   validate_tags (init None) None (Some ''essay'') (Some ''now'') (Some [''cooking'']) =
     (False, ''Invalid type '' @ [CHR 0x27] @ ''essay'' @ [CHR 0x27] @
             ''. Must be one of: project, idea, reference, todo, note'') \<and>
   validate_tags (init None) (Some ''work'') None (Some ''now'') (Some [''cooking'']) =
     (False, ''Invalid priority '' @ [CHR 0x27] @ ''now'' @ [CHR 0x27] @
             ''. Must be one of: active, soon, someday, eventually, maybe, not-actionable'') \<and>
   validate_tags (init None) (Some ''work'') (Some ''todo'') None (Some [''ai'', ''cooking'', ''chess'']) =
     (False, ''Invalid topic '' @ [CHR 0x27] @ ''cooking'' @ [CHR 0x27] @
             ''. Must be one of: mcp, ai, coding, design'') \<and>
   validate_tags (init None) (Some ''work'') None (Some ''soon'') (Some [''ai'', ''mcp'']) = (True, []) \<and>
   list_all (\<lambda>v. CHR '','' \<notin> set v) (schema_priority (get_schema (init None))) \<and>
   split_list ''active, soon, someday, eventually, maybe, not-actionable'' =
     schema_priority (get_schema (init None))"
proof -
  have sch: "get_schema (init None) = tag_schema seed_document"
    by (simp add: get_schema_def init_def load_def)
  have e: "enumeration [''active'', ''soon'', ''someday'', ''eventually'', ''maybe'',
      ''not-actionable''] = ''active, soon, someday, eventually, maybe, not-actionable''"
    by (simp add: enumeration_def)
  have c: "list_all (\<lambda>v. CHR '','' \<notin> set v) (schema_priority (get_schema (init None)))"
    by (simp add: sch seed_document_def)
  show ?thesis
    using c validate_tags_order [of "init None" "Some ''home''" "Some ''essay''" "Some ''now''" "Some [''cooking'']"
        _ _ _ "schema_priority (get_schema (init None))"]
      validate_tags_order [of "init None" None "Some ''essay''" "Some ''now''" "Some [''cooking'']"]
      validate_tags_order [of "init None" "Some ''work''" None "Some ''now''" "Some [''cooking'']"]
      validate_tags_order [where s = "init None" and category_arg = "Some ''work''" and type_arg = "Some ''todo''" and priority_arg = None and pre = "[''ai'']" and topic = "''cooking''" and post = "[''chess'']"]
      validate_tags_order [of "init None" "Some ''work''" None "Some ''soon''" "Some [''ai'', ''mcp'']"]
    by (simp add: sch seed_document_def absent_or_member_def enumeration_def)
qed


section \<open>The schema grows by appending\<close>


lemma add_tags_set: "set (add_tags dim ts) = set dim \<union> set ts"
  by (induction ts arbitrary: dim) auto

lemma add_tags_prefix: "\<exists>new. add_tags dim ts = dim @ new"
  by (induction ts arbitrary: dim) (auto, metis append.assoc)












section \<open>The invariant of the document\<close>

lemma note_in_schema_mono:
  "note_in_schema schema n \<Longrightarrow>
   set (schema_category schema) \<subseteq> set (schema_category schema') \<Longrightarrow>
   set (schema_type schema) \<subseteq> set (schema_type schema') \<Longrightarrow>
   set (schema_priority schema) \<subseteq> set (schema_priority schema') \<Longrightarrow>
   set (schema_topics schema) \<subseteq> set (schema_topics schema') \<Longrightarrow>
   note_in_schema schema' n"
  by (auto simp: note_in_schema_def)

lemma dimension_set_grows:
  "note_in_schema schema n \<Longrightarrow>
   note_in_schema
     (dimension_set dimension (add_tags (dimension_get dimension schema) ts) schema) n"
  by (rule note_in_schema_mono)
     (auto simp: dimension_set_def dimension_get_def add_tags_set)

lemma add_tags_to_schema_invariant:
  "schema_membership (data s) \<Longrightarrow>
   schema_membership (data (snd (add_tags_to_schema e dimension ts s)))"
  by (auto simp: add_tags_to_schema_def schema_membership_def save_def Let_def list_all_iff
      dimension_set_grows)

lemma validate_tags_sound:
  "fst (validate_tags s c t p tops) \<Longrightarrow>
   absent_or_member c (schema_category (tag_schema (data s))) \<and>
   absent_or_member t (schema_type (tag_schema (data s))) \<and>
   absent_or_member p (schema_priority (tag_schema (data s))) \<and>
   (case tops of None \<Rightarrow> True | Some ts \<Rightarrow> set ts \<subseteq> set (schema_topics (tag_schema (data s))))"
  by (auto simp: validate_tags_def absent_or_member_def Let_def validate_topics_fst
      split: option.splits if_splits)

lemma create_note_invariant:
  "schema_membership (data s) \<Longrightarrow>
   schema_membership (data (snd (create_note e t c cat typ pri tops s)))"
proof (cases "fst (validate_tags s (Some cat) (Some typ) (Some pri) tops)")
  case False
  assume "schema_membership (data s)"
  with False show ?thesis
    by (auto simp: create_note_def split: prod.splits)
next
  case True
  assume inv: "schema_membership (data s)"
  from validate_tags_sound [OF True] have
    "cat \<in> set (schema_category (tag_schema (data s)))"
    "typ \<in> set (schema_type (tag_schema (data s)))"
    "pri \<in> set (schema_priority (tag_schema (data s)))"
    "case tops of None \<Rightarrow> True | Some ts \<Rightarrow> set ts \<subseteq> set (schema_topics (tag_schema (data s)))"
    by (simp_all add: absent_or_member_def)
  with inv True show ?thesis
    by (auto simp: create_note_def schema_membership_def save_def Let_def note_in_schema_def
        split: prod.splits option.splits)
qed

lemma update_fields_in_schema:
  "note_in_schema schema n \<Longrightarrow>
   absent_or_member c (schema_category schema) \<Longrightarrow>
   absent_or_member t (schema_type schema) \<Longrightarrow>
   absent_or_member p (schema_priority schema) \<Longrightarrow>
   (case tops of None \<Rightarrow> True | Some ts \<Rightarrow> set ts \<subseteq> set (schema_topics schema)) \<Longrightarrow>
   note_in_schema schema (update_fields now ti co c t p tops n)"
  by (auto simp: update_fields_def note_in_schema_def absent_or_member_def Let_def
      split: option.splits)

lemma list_all_update: "list_all P xs \<Longrightarrow> P v \<Longrightarrow> list_all P (xs[k := v])"
  using set_update_subset_insert [of xs k v] by (auto simp: list_all_iff)

lemma update_note_invariant:
  "schema_membership (data s) \<Longrightarrow>
   schema_membership (data (snd (update_note e i ti co c t p tops s)))"
proof (cases "find_index i (all_notes (data s))")
  case None
  assume "schema_membership (data s)"
  with None show ?thesis by (simp add: update_note_def)
next
  case (Some k)
  assume inv: "schema_membership (data s)"
  show ?thesis
  proof (cases "fst (validate_tags s c t p tops)")
    case False
    with inv Some show ?thesis
      by (auto simp: update_note_def split: prod.splits)
  next
    case True
    from find_index_Some [OF Some] have k: "k < length (all_notes (data s))" by simp
    with inv have "note_in_schema (tag_schema (data s)) (all_notes (data s) ! k)"
      by (simp add: schema_membership_def list_all_length)
    with validate_tags_sound [OF True]
    have "note_in_schema (tag_schema (data s))
            (update_fields (timestamp (utcnow e)) ti co c t p tops (all_notes (data s) ! k))"
      by (simp add: update_fields_in_schema)
    with inv True Some show ?thesis
      by (auto simp: update_note_def schema_membership_def save_def Let_def list_all_update
          split: prod.splits)
  qed
qed

lemma delete_note_invariant:
  "schema_membership (data s) \<Longrightarrow> schema_membership (data (snd (delete_note e i s)))"
  by (auto simp: delete_note_def schema_membership_def save_def Let_def list_all_iff
      split: option.splits dest: in_set_takeD in_set_dropD)

lemma apply_operation_invariant:
  "schema_membership (data s) \<Longrightarrow> schema_membership (data (apply_operation s operation))"
  by (cases operation)
     (simp_all add: create_note_invariant update_note_invariant delete_note_invariant
        add_tags_to_schema_invariant)

lemma run_invariant:
  "schema_membership (data s) \<Longrightarrow> schema_membership (data (run ops s))"
  unfolding run_def
  by (induction ops arbitrary: s) (simp_all add: apply_operation_invariant)

text \<open>
  With every list given by its value, schema membership is an invariant: in every store
  reached from the seed document (no file yet) by any sequence of calls of
  \<open>create_note\<close>, \<open>update_note\<close>, \<open>delete_note\<close> and \<open>add_tags_to_schema\<close>, whether they
  return or raise, the category, type and priority of every stored note are in the
  dimension of the schema with that name and every topic of the note is in the topics
  dimension.
\<close>

theorem schema_membership_reachable:
  "schema_membership (data (run ops (init None)))"
  by (rule run_invariant) (simp add: init_def load_def seed_document_def schema_membership_def)


theorem schema_membership_reachable_witness:
  "schema_membership
     (data (run [CreateNote env0 ''Plan'' ''Body'' ''work'' ''todo'' ''active'' (Some [''mcp'']),
                 AddTagsToSchema env1 ''topics'' [''rust''],
                 UpdateNote env1 ''n1'' None None None None None (Some [''rust'', ''ai'']),
                 CreateNote env1 ''Bad'' ''Body'' ''home'' ''todo'' ''active'' None]
              (init None)))"
  using schema_membership_reachable
    [of "[CreateNote env0 ''Plan'' ''Body'' ''work'' ''todo'' ''active'' (Some [''mcp'']),
          AddTagsToSchema env1 ''topics'' [''rust''],
          UpdateNote env1 ''n1'' None None None None None (Some [''rust'', ''ai'']),
          CreateNote env1 ''Bad'' ''Body'' ''home'' ''todo'' ''active'' None]"]
  by simp

section \<open>Updating a note\<close>

lemma find_index_update_same:
  "find_index i ns = Some k \<Longrightarrow> note_id v = i \<Longrightarrow> find_index i (ns[k := v]) = Some k"
  by (induction ns arbitrary: k) (auto split: if_splits)

lemma update_fields_id: "note_id (update_fields now ti co c t p tops n) = note_id n"
  by (simp add: update_fields_def Let_def)

lemma read_note_Inr:
  "read_note i s = Inr n \<Longrightarrow>
   \<exists>k. find_index i (all_notes (data s)) = Some k \<and> k < length (all_notes (data s)) \<and>
       all_notes (data s) ! k = n \<and> note_id n = i"
  by (auto simp: read_note_def split: option.splits dest: find_index_Some)



section \<open>Searching\<close>

lemma store2_notes: "all_notes (data store2) = [note1, note2]"
  by (simp add: store2_def store1_eq create_note_def validate_tags_def seed_document_def
      env1_def timestamp_clock1 save_def note2_def Let_def)

lemma take_eq_iff_prefix: "take (length sub) s = sub \<longleftrightarrow> (\<exists>after. s = sub @ after)"
  by (metis append_eq_conv_conj append_take_drop_id)

lemma str_in_iff: "str_in sub s \<longleftrightarrow> (\<exists>before after. s = before @ sub @ after)"
proof (induction s)
  case Nil
  show ?case by simp
next
  case (Cons c cs)
  have "(\<exists>before after. c # cs = before @ sub @ after) \<longleftrightarrow>
        (\<exists>after. c # cs = sub @ after) \<or> (\<exists>before after. cs = before @ sub @ after)"
  proof
    assume "\<exists>before after. c # cs = before @ sub @ after"
    then obtain before after where e: "c # cs = before @ sub @ after" by blast
    show "(\<exists>after. c # cs = sub @ after) \<or> (\<exists>before after. cs = before @ sub @ after)"
    proof (cases before)
      case Nil
      with e show ?thesis by auto
    next
      case (Cons b bs)
      with e have "cs = bs @ sub @ after" by simp
      then show ?thesis by blast
    qed
  next
    assume "(\<exists>after. c # cs = sub @ after) \<or> (\<exists>before after. cs = before @ sub @ after)"
    then show "\<exists>before after. c # cs = before @ sub @ after"
    proof
      assume "\<exists>after. c # cs = sub @ after"
      then obtain after where "c # cs = [] @ sub @ after" by auto
      then show ?thesis by blast
    next
      assume "\<exists>before after. cs = before @ sub @ after"
      then obtain before after where "c # cs = (c # before) @ sub @ after" by auto
      then show ?thesis by blast
    qed
  qed
  with Cons.IH show ?case
    by (simp only: str_in.simps take_eq_iff_prefix)
qed

lemma provided_differs:
  "(x \<noteq> None \<and> v \<noteq> the x) \<longleftrightarrow> \<not> (case x of None \<Rightarrow> True | Some c \<Rightarrow> v = c)"
  by (cases x) auto

lemma provided_no_topic:
  "(tops \<noteq> None \<and> \<not> list_ex P (the tops)) \<longleftrightarrow>
   \<not> (case tops of None \<Rightarrow> True | Some ts \<Rightarrow> \<exists>topic \<in> set ts. P topic)"
  by (cases tops) (auto simp: list_ex_iff)

lemma provided_not_in_title:
  "(tc \<noteq> None \<and> \<not> str_in (lower (the tc)) s) \<longleftrightarrow>
   \<not> (case tc of None \<Rightarrow> True | Some sub \<Rightarrow> \<exists>before after. s = before @ lower sub @ after)"
  by (cases tc) (auto simp: str_in_iff)

lemma provided_after:
  "(b \<noteq> None \<and> (v :: string) < the b) \<longleftrightarrow> \<not> (case b of None \<Rightarrow> True | Some x \<Rightarrow> x \<le> v)"
  by (cases b) (auto simp: not_le)

lemma provided_before:
  "(b \<noteq> None \<and> (v :: string) > the b) \<longleftrightarrow> \<not> (case b of None \<Rightarrow> True | Some x \<Rightarrow> v \<le> x)"
  by (cases b) (auto simp: not_le)

lemma find_notes_step_matches:
  "find_notes_step lower c t p tops tc ca cb ua ub results n =
     (if note_matches lower c t p tops tc ca cb ua ub n then results @ [n] else results)"
  unfolding find_notes_step_def note_matches_def
    provided_differs provided_no_topic provided_not_in_title provided_after provided_before
  by simp

lemma foldl_find_notes_step:
  "foldl (find_notes_step lower c t p tops tc ca cb ua ub) results ns =
     results @ filter (note_matches lower c t p tops tc ca cb ua ub) ns"
  by (induction ns arbitrary: results) (simp_all add: find_notes_step_matches)

lemma find_notes_filter:
  "find_notes lower c t p tops tc ca cb ua ub s =
     filter (note_matches lower c t p tops tc ca cb ua ub) (all_notes (data s))"
  by (simp add: find_notes_def foldl_find_notes_step)

text \<open>
  C6. \<open>find_notes\<close> returns the notes of the document that satisfy \<open>note_matches\<close>, in
  the order of the document: all provided filters must hold (AND), the topics filter
  holds for a note that carries at least one requested topic (OR). With no filter it
  returns every note, and when no note matches it returns the empty list; it is a total
  function, so it never raises.
\<close>

theorem find_notes_combination:
  "find_notes lower c t p tops tc ca cb ua ub s =
     filter (note_matches lower c t p tops tc ca cb ua ub) (all_notes (data s)) \<and>
   find_notes lower None None None None None None None None None s = all_notes (data s) \<and>
   ((\<forall>n \<in> set (all_notes (data s)). \<not> note_matches lower c t p tops tc ca cb ua ub n) \<longrightarrow>
      find_notes lower c t p tops tc ca cb ua ub s = [])"
  by (simp add: find_notes_filter) (simp add: note_matches_def)

theorem find_notes_combination_witness:
  "find_notes ascii_lower None None None (Some [''mcp'', ''design'']) None None None None None
     store2 = [note1, note2] \<and>
   find_notes ascii_lower (Some ''personal'') None None (Some [''mcp'', ''design'']) None
     None None None None store2 = [note2] \<and>
   find_notes ascii_lower None None None None None None None None None store2 = [note1, note2] \<and>
   find_notes ascii_lower (Some ''learning'') None None None None None None None None store2 = []"
proof -
  have m: "\<forall>n \<in> set (all_notes (data store2)).
      \<not> note_matches ascii_lower (Some ''learning'') None None None None None None None None n"
    by (simp add: store2_notes note_matches_def note1_def note2_def)
  show ?thesis
    using m
      find_notes_combination [of ascii_lower None None None "Some [''mcp'', ''design'']" None
        None None None None store2]
      find_notes_combination [of ascii_lower "Some ''personal''" None None
        "Some [''mcp'', ''design'']" None None None None None store2]
      find_notes_combination [of ascii_lower "Some ''learning''" None None None None
        None None None None store2]
    by (simp add: store2_notes note_matches_def) (simp add: note1_def note2_def)
qed

text \<open>
  C3. The date filters of \<open>find_notes\<close> are inclusive bounds in the lexicographic order
  of strings, on top of whatever the other filters keep: \<open>created_after\<close> keeps exactly
  the notes with \<open>bound \<le> created\<close>, \<open>created_before\<close> those with \<open>created \<le> bound\<close>,
  and \<open>updated_after\<close> and \<open>updated_before\<close> do the same on \<open>updated\<close>.
\<close>

theorem find_notes_date_bounds:
  "find_notes lower c t p tops tc ca cb ua ub s =
     filter (\<lambda>n. (case ca of None \<Rightarrow> True | Some b \<Rightarrow> b \<le> created n) \<and>
                 (case cb of None \<Rightarrow> True | Some b \<Rightarrow> created n \<le> b) \<and>
                 (case ua of None \<Rightarrow> True | Some b \<Rightarrow> b \<le> updated n) \<and>
                 (case ub of None \<Rightarrow> True | Some b \<Rightarrow> updated n \<le> b))
       (find_notes lower c t p tops tc None None None None s) \<and>
   find_notes lower None None None None None (Some b) None None None s =
     filter (\<lambda>n. b \<le> created n) (all_notes (data s)) \<and>
   find_notes lower None None None None None None (Some b) None None s =
     filter (\<lambda>n. created n \<le> b) (all_notes (data s)) \<and>
   find_notes lower None None None None None None None (Some b) None s =
     filter (\<lambda>n. b \<le> updated n) (all_notes (data s)) \<and>
   find_notes lower None None None None None None None None (Some b) s =
     filter (\<lambda>n. updated n \<le> b) (all_notes (data s))"
  by (auto simp: find_notes_filter note_matches_def intro: filter_cong)

theorem find_notes_date_bounds_witness:
  "find_notes ascii_lower None None None None None (Some ''2024-01-01T00:00:00Z'') None None None
     store2 = [note1] \<and>
   find_notes ascii_lower None None None None None None (Some ''2024-01-01T00:00:00Z'') None None
     store2 = [note1, note2] \<and>
   find_notes ascii_lower None None None None None None None (Some ''2024-01-01T00:00:00.000001Z'')
     None store2 = [note1, note2] \<and>
   find_notes ascii_lower None None None None None None None None
     (Some ''2024-01-01T00:00:00.000001Z'') store2 = [note2]"
  using find_notes_date_bounds [of ascii_lower None None None None None None None None None store2
      "''2024-01-01T00:00:00Z''"]
    find_notes_date_bounds [of ascii_lower None None None None None None None None None store2
      "''2024-01-01T00:00:00.000001Z''"]
  by (simp add: store2_notes) (simp add: note1_def note2_def)

section \<open>Counting tags\<close>














section \<open>The order of timestamps\<close>

text \<open>
  The digits of \<open>zero_pad\<close> order the numbers that fit the width as the numbers are
  ordered, so the part of a timestamp down to the second orders clock readings
  chronologically.
\<close>

lemma length_zero_pad: "length (zero_pad w n) = w"
  by (induction w arbitrary: n) simp_all

lemma less_append_same_length:
  fixes a b :: string
  shows "a < b \<Longrightarrow> length a = length b \<Longrightarrow> a @ x < b @ y"
  by (simp add: list_less_def lexord_sufI)

lemma less_append_same_prefix:
  fixes a :: string
  shows "a @ x < a @ y \<longleftrightarrow> x < y"
  by (simp add: list_less_def lexord_same_pref_iff)

lemma digit_less: "a < b \<Longrightarrow> b < 10 \<Longrightarrow> char_of (48 + a :: nat) < char_of (48 + b)"
  by (simp add: less_char_def)

lemma div_less_pow: "m < 10 ^ Suc w \<Longrightarrow> m div 10 < (10::nat) ^ w"
  by (simp add: less_mult_imp_div_less mult.commute)

lemma same_tens: "n < m \<Longrightarrow> \<not> n div 10 < m div 10 \<Longrightarrow> n div 10 = m div (10::nat)"
  by (meson div_le_mono le_antisym less_imp_le not_less)

lemma units_less: "n < m \<Longrightarrow> n div 10 = m div (10::nat) \<Longrightarrow> n mod 10 < m mod 10"
  by (metis div_mult_mod_eq nat_add_left_cancel_less)

lemma zero_pad_Suc_less:
  "zero_pad w (n div 10) < zero_pad w (m div 10) \<Longrightarrow>
   zero_pad (Suc w) n < zero_pad (Suc w) m"
  by (simp add: less_append_same_length length_zero_pad)

lemma zero_pad_Suc_units:
  "n div 10 = m div 10 \<Longrightarrow> n mod 10 < m mod 10 \<Longrightarrow>
   zero_pad (Suc w) n < zero_pad (Suc w) m"
proof -
  assume e: "n div 10 = m div 10" and l: "n mod 10 < m mod 10"
  have "m mod 10 < 10" by simp
  with l have "char_of (48 + n mod 10) < char_of (48 + m mod 10)"
    by (rule digit_less)
  then have "[char_of (48 + n mod 10)] < [char_of (48 + m mod 10)]"
    by simp
  then have "zero_pad w (m div 10) @ [char_of (48 + n mod 10)] <
             zero_pad w (m div 10) @ [char_of (48 + m mod 10)]"
    by (simp only: less_append_same_prefix)
  with e show ?thesis by simp
qed

lemma zero_pad_mono: "n < m \<Longrightarrow> m < 10 ^ w \<Longrightarrow> zero_pad w n < zero_pad w m"
proof (induction w arbitrary: n m)
  case 0
  then show ?case by simp
next
  case (Suc w)
  have m: "m div 10 < 10 ^ w" using Suc.prems(2) by (rule div_less_pow)
  show ?case
  proof (cases "n div 10 < m div 10")
    case True
    from Suc.IH [OF True m] show ?thesis
      by (rule zero_pad_Suc_less)
  next
    case False
    with Suc.prems(1) have e: "n div 10 = m div 10" by (rule same_tens)
    with Suc.prems(1) have "n mod 10 < m mod 10" by (rule units_less)
    with e show ?thesis by (rule zero_pad_Suc_units)
  qed
qed

lemma field_less:
  "x < y \<Longrightarrow> y < 10 ^ w \<Longrightarrow> zero_pad w x @ r1 < zero_pad w y @ r2"
  by (rule less_append_same_length) (simp_all add: zero_pad_mono length_zero_pad)

lemma length_iso_seconds: "length (iso_seconds d) = 19"
  by (simp add: iso_seconds_def length_zero_pad)

lemma iso_seconds_same: "same_second a b \<Longrightarrow> iso_seconds a = iso_seconds b"
  by (simp add: same_second_def iso_seconds_def)

lemma iso_seconds_mono:
  assumes "datetime_ok b" and "earlier_second a b"
  shows "iso_seconds a < iso_seconds b"
proof -
  have b: "year b < 10 ^ 4" "month b < 10 ^ 2" "day b < 10 ^ 2" "hour b < 10 ^ 2"
    "minute b < 10 ^ 2" "second b < 10 ^ 2"
    using assms(1) by (simp_all add: datetime_ok_def)
  consider
    (y) "year a < year b"
  | (mo) "year a = year b" "month a < month b"
  | (d) "year a = year b" "month a = month b" "day a < day b"
  | (h) "year a = year b" "month a = month b" "day a = day b" "hour a < hour b"
  | (mi) "year a = year b" "month a = month b" "day a = day b" "hour a = hour b"
      "minute a < minute b"
  | (s) "year a = year b" "month a = month b" "day a = day b" "hour a = hour b"
      "minute a = minute b" "second a < second b"
    using assms(2) unfolding earlier_second_def by blast
  then show ?thesis
  proof cases
    case y
    then show ?thesis unfolding iso_seconds_def using b(1) by (rule field_less)
  next
    case mo
    have "zero_pad 2 (month a) @ ''-'' @ zero_pad 2 (day a) @ ''T'' @
            zero_pad 2 (hour a) @ '':'' @ zero_pad 2 (minute a) @ '':'' @ zero_pad 2 (second a) <
          zero_pad 2 (month b) @ ''-'' @ zero_pad 2 (day b) @ ''T'' @
            zero_pad 2 (hour b) @ '':'' @ zero_pad 2 (minute b) @ '':'' @ zero_pad 2 (second b)"
      using mo(2) b(2) by (rule field_less)
    then show ?thesis
      unfolding iso_seconds_def by (simp add: mo(1) less_append_same_prefix)
  next
    case d
    have "zero_pad 2 (day a) @ ''T'' @
            zero_pad 2 (hour a) @ '':'' @ zero_pad 2 (minute a) @ '':'' @ zero_pad 2 (second a) <
          zero_pad 2 (day b) @ ''T'' @
            zero_pad 2 (hour b) @ '':'' @ zero_pad 2 (minute b) @ '':'' @ zero_pad 2 (second b)"
      using d(3) b(3) by (rule field_less)
    then show ?thesis
      unfolding iso_seconds_def by (simp add: d(1,2) less_append_same_prefix)
  next
    case h
    have "zero_pad 2 (hour a) @ '':'' @ zero_pad 2 (minute a) @ '':'' @ zero_pad 2 (second a) <
          zero_pad 2 (hour b) @ '':'' @ zero_pad 2 (minute b) @ '':'' @ zero_pad 2 (second b)"
      using h(4) b(4) by (rule field_less)
    then show ?thesis
      unfolding iso_seconds_def by (simp add: h(1,2,3) less_append_same_prefix)
  next
    case mi
    have "zero_pad 2 (minute a) @ '':'' @ zero_pad 2 (second a) <
          zero_pad 2 (minute b) @ '':'' @ zero_pad 2 (second b)"
      using mi(5) b(5) by (rule field_less)
    then show ?thesis
      unfolding iso_seconds_def by (simp add: mi(1,2,3,4) less_append_same_prefix)
  next
    case s
    have "zero_pad 2 (second a) < zero_pad 2 (second b)"
      using s(6) b(6) by (rule zero_pad_mono)
    then show ?thesis
      unfolding iso_seconds_def by (simp add: s(1,2,3,4,5) less_append_same_prefix)
  qed
qed

text \<open>
  A later clock reading gives a greater timestamp, unless both readings fall in the same
  second and the earlier one has no microseconds: its timestamp then carries no fraction,
  and \<open>Z\<close> follows the seconds where the later one has a dot.
\<close>

lemma timestamp_mono:
  assumes "datetime_ok b" and "earlier a b"
    and "\<not> (same_second a b \<and> microsecond a = 0)"
  shows "timestamp a < timestamp b"
proof (cases "earlier_second a b")
  case True
  with assms(1) have "iso_seconds a < iso_seconds b" by (rule iso_seconds_mono)
  then show ?thesis
    unfolding timestamp_def isoformat_def
    by (simp add: less_append_same_length length_iso_seconds)
next
  case False
  with assms(2,3) have s: "same_second a b" and l: "microsecond a < microsecond b"
    and nz: "microsecond a \<noteq> 0"
    by (auto simp: earlier_def)
  have u: "microsecond b < 10 ^ 6"
    using assms(1) by (simp add: datetime_ok_def)
  from l u have "zero_pad 6 (microsecond a) @ ''Z'' < zero_pad 6 (microsecond b) @ ''Z''"
    by (rule field_less)
  with l nz show ?thesis
    unfolding timestamp_def isoformat_def
    by (simp add: iso_seconds_same [OF s] less_append_same_prefix)
qed

section \<open>The timestamps of a note\<close>

lemma timestamp_clock2: "timestamp clock2 = ''2024-01-01T00:00:01Z''"
  by (simp add: timestamp_def isoformat_def iso_seconds_def clock2_def zero_pad_2 zero_pad_4
      digit_chars)

lemma create_note_Inr:
  assumes "create_note e title_arg content_arg category_arg type_arg priority_arg topics_arg s =
             (Inr m, s1)"
  shows "created m = timestamp (utcnow e) \<and> updated m = timestamp (utcnow e) \<and>
         all_notes (data s1) = all_notes (data s) @ [m]"
  using assms
  by (auto simp: create_note_def save_def Let_def split: prod.splits if_splits)

lemma update_note_Inr:
  assumes "find_index i (all_notes (data s)) = Some k"
    and "update_note e i title_arg content_arg category_arg type_arg priority_arg topics_arg s =
           (Inr n', s')"
  shows "n' = update_fields (timestamp (utcnow e)) title_arg content_arg category_arg type_arg
                priority_arg topics_arg (all_notes (data s) ! k) \<and>
         all_notes (data s') = (all_notes (data s))[k := n']"
  using assms
  by (auto simp: update_note_def save_def Let_def split: prod.splits if_splits)

lemma update_fields_stamps:
  "created (update_fields now ti co c t p tops n) = created n"
  "updated (update_fields now ti co c t p tops n) = now"
  by (simp_all add: update_fields_def Let_def)

lemma create_note_store1:
  "create_note env0 ''Plan'' ''Body'' ''work'' ''todo'' ''active'' (Some [''mcp'']) (init None) =
     (Inr note1, store1)"
proof -
  have "fst (create_note env0 ''Plan'' ''Body'' ''work'' ''todo'' ''active'' (Some [''mcp''])
      (init None)) = Inr note1"
    by (simp add: create_note_def validate_tags_def init_def load_def seed_document_def
        env0_def timestamp_clock0 save_def note1_def Let_def)
  then show ?thesis by (simp add: store1_def prod_eq_iff)
qed

lemma read_note_store1: "read_note ''n1'' store1 = Inr note1"
  by (simp add: read_note_def store1_eq note1_def)

lemma update_note_store1_fst:
  "save_ok e \<Longrightarrow>
   fst (update_note e ''n1'' None None None None None None store1) =
     Inr (note1\<lparr>updated := timestamp (utcnow e)\<rparr>)"
  by (simp add: update_note_def store1_eq validate_tags_def update_fields_def save_def Let_def)
    (simp add: note1_def)


text \<open>
  C5. The discipline of the timestamps, for a clock that advances from one call to the
  next: a note has \<open>created\<close> equal to \<open>updated\<close> when \<open>create_note\<close> returns it, and each
  successful \<open>update_note\<close> leaves \<open>created\<close> and makes \<open>updated\<close> strictly greater in the
  order of strings. The code breaks the last part: \<open>isoformat()\<close> prints no fraction for
  a clock reading on a whole second. A note created on a whole second and updated one
  microsecond later, by a clock reading that is later, has the update succeed and the
  new \<open>updated\<close> smaller than the old one in the order of strings.
\<close>

theorem updated_not_increasing:
  "datetime_ok (utcnow env0) \<and> datetime_ok (utcnow env1) \<and>
   earlier (utcnow env0) (utcnow env1) \<and>
   create_note env0 ''Plan'' ''Body'' ''work'' ''todo'' ''active'' (Some [''mcp'']) (init None) =
     (Inr note1, store1) \<and>
   updated note1 = ''2024-01-01T00:00:00Z'' \<and>
   read_note ''n1'' store1 = Inr note1 \<and>
   fst (update_note env1 ''n1'' None None None None None None store1) =
     Inr (note1\<lparr>updated := ''2024-01-01T00:00:00.000001Z''\<rparr>) \<and>
   ''2024-01-01T00:00:00.000001Z'' < updated note1"
proof -
  have ok: "save_ok env1" by (simp add: env1_def)
  have f: "fst (update_note env1 ''n1'' None None None None None None store1) =
      Inr (note1\<lparr>updated := ''2024-01-01T00:00:00.000001Z''\<rparr>)"
    using update_note_store1_fst [OF ok] by (simp add: env1_def timestamp_clock1)
  have d: "datetime_ok (utcnow env0)" "datetime_ok (utcnow env1)"
    by (simp_all add: env0_def env1_def clock0_def clock1_def datetime_ok_def)
  have e: "earlier (utcnow env0) (utcnow env1)"
    by (simp add: env0_def env1_def clock0_def clock1_def earlier_def earlier_second_def
        same_second_def)
  have l: "''2024-01-01T00:00:00.000001Z'' < updated note1"
    by (simp add: note1_def less_char_def)
  have up: "updated note1 = ''2024-01-01T00:00:00Z''" by (simp add: note1_def)
  from d e create_note_store1 up read_note_store1 f l show ?thesis by blast
qed

text \<open>
  What the code keeps of the discipline. A note that \<open>create_note\<close> returns has \<open>created\<close>
  equal to \<open>updated\<close>, both the timestamp of the clock reading, and is the last note of
  the document. A successful \<open>update_note\<close> on a stored note leaves \<open>created\<close> as it was
  and sets \<open>updated\<close> to the timestamp of its clock reading, and the note stored under the
  identifier is the one returned. When the previous \<open>updated\<close> is the timestamp of a
  clock reading earlier than the one of the update, the new \<open>updated\<close> is strictly
  greater in the order of strings in every case but the one above: the two readings in
  the same second, the earlier one on zero microseconds.
\<close>

theorem timestamp_discipline:
  "(create_note e0 title0 content0 category0 type0 priority0 topics0 s0 = (Inr m, s1) \<longrightarrow>
      created m = updated m \<and> updated m = timestamp (utcnow e0) \<and>
      all_notes (data s1) = all_notes (data s0) @ [m]) \<and>
   (read_note i s = Inr n \<and>
    update_note e i title_arg content_arg category_arg type_arg priority_arg topics_arg s =
      (Inr n', s') \<longrightarrow>
      read_note i s' = Inr n' \<and> created n' = created n \<and>
      updated n' = timestamp (utcnow e) \<and>
      (updated n = timestamp d \<and> datetime_ok (utcnow e) \<and> earlier d (utcnow e) \<and>
       \<not> (same_second d (utcnow e) \<and> microsecond d = 0) \<longrightarrow> updated n < updated n'))"
proof (intro conjI impI)
  assume "create_note e0 title0 content0 category0 type0 priority0 topics0 s0 = (Inr m, s1)"
  then have c: "created m = timestamp (utcnow e0) \<and> updated m = timestamp (utcnow e0) \<and>
      all_notes (data s1) = all_notes (data s0) @ [m]"
    by (rule create_note_Inr)
  from c show "created m = updated m" by simp
  from c show "updated m = timestamp (utcnow e0)" by simp
  from c show "all_notes (data s1) = all_notes (data s0) @ [m]" by simp
next
  assume a: "read_note i s = Inr n \<and>
    update_note e i title_arg content_arg category_arg type_arg priority_arg topics_arg s =
      (Inr n', s')"
  from a read_note_Inr obtain k where
    k: "find_index i (all_notes (data s)) = Some k" "k < length (all_notes (data s))"
       "all_notes (data s) ! k = n" "note_id n = i"
    by blast
  from a have "update_note e i title_arg content_arg category_arg type_arg priority_arg
      topics_arg s = (Inr n', s')"
    by simp
  with k(1) have u: "n' = update_fields (timestamp (utcnow e)) title_arg content_arg
        category_arg type_arg priority_arg topics_arg (all_notes (data s) ! k) \<and>
      all_notes (data s') = (all_notes (data s))[k := n']"
    by (rule update_note_Inr)
  from u k(3) have n': "n' = update_fields (timestamp (utcnow e)) title_arg content_arg
        category_arg type_arg priority_arg topics_arg n"
    by simp
  from n' k(4) have "note_id n' = i" by (simp add: update_fields_id)
  with k(1) have "find_index i ((all_notes (data s))[k := n']) = Some k"
    by (rule find_index_update_same)
  with u k(2) show "read_note i s' = Inr n'" by (simp add: read_note_def)
  from n' show cr: "created n' = created n" by (simp add: update_fields_stamps)
  from n' show up: "updated n' = timestamp (utcnow e)" by (simp add: update_fields_stamps)
  assume h: "updated n = timestamp d \<and> datetime_ok (utcnow e) \<and> earlier d (utcnow e) \<and>
       \<not> (same_second d (utcnow e) \<and> microsecond d = 0)"
  then have "timestamp d < timestamp (utcnow e)"
    using timestamp_mono [of "utcnow e" d] by blast
  with h up show "updated n < updated n'" by simp
qed

theorem timestamp_discipline_witness:
  "create_note env0 ''Plan'' ''Body'' ''work'' ''todo'' ''active'' (Some [''mcp'']) (init None) =
     (Inr note1, store1) \<and>
   read_note ''n1'' store1 = Inr note1 \<and>
   fst (update_note env3 ''n1'' None None None None None None store1) =
     Inr (note1\<lparr>updated := ''2024-01-01T00:00:01Z''\<rparr>) \<and>
   updated note1 = timestamp clock0 \<and> datetime_ok (utcnow env3) \<and>
   earlier clock0 (utcnow env3) \<and> \<not> same_second clock0 (utcnow env3) \<and>
   created note1 = updated note1 \<and>
   read_note ''n1'' (snd (update_note env3 ''n1'' None None None None None None store1)) =
     Inr (note1\<lparr>updated := ''2024-01-01T00:00:01Z''\<rparr>) \<and>
   updated note1 < ''2024-01-01T00:00:01Z''"
proof -
  let ?n = "note1\<lparr>updated := ''2024-01-01T00:00:01Z''\<rparr>"
  let ?s = "snd (update_note env3 ''n1'' None None None None None None store1)"
  have ok: "save_ok env3" by (simp add: env3_def)
  have f: "fst (update_note env3 ''n1'' None None None None None None store1) = Inr ?n"
    using update_note_store1_fst [OF ok] by (simp add: env3_def timestamp_clock2)
  then have u: "update_note env3 ''n1'' None None None None None None store1 = (Inr ?n, ?s)"
    by (simp add: prod_eq_iff)
  have st: "updated note1 = timestamp clock0"
    by (simp add: note1_def timestamp_clock0)
  have d: "datetime_ok (utcnow env3)"
    by (simp add: env3_def clock2_def datetime_ok_def)
  have e: "earlier clock0 (utcnow env3)"
    by (simp add: env3_def clock0_def clock2_def earlier_def earlier_second_def)
  have ns: "\<not> same_second clock0 (utcnow env3)"
    by (simp add: env3_def clock0_def clock2_def same_second_def)
  note t = timestamp_discipline [of env0 "''Plan''" "''Body''" "''work''" "''todo''" "''active''"
      "Some [''mcp'']" "init None" note1 store1 "''n1''" store1 note1 env3 None None None None
      None None ?n ?s clock0]
  from t create_note_store1 have c: "created note1 = updated note1" by blast
  from t read_note_store1 u st d e ns
  have r: "read_note ''n1'' ?s = Inr ?n \<and> updated note1 < updated ?n"
    by blast
  from r have l: "updated note1 < ''2024-01-01T00:00:01Z''" by simp
  from create_note_store1 read_note_store1 f st d e ns c r l show ?thesis by blast
qed

section \<open>Shared lists and the invariant of the document\<close>

text \<open>
  A store whose topic lists are no list of the schema, under calls that pass no list of
  the schema, behaves as the store of values does.
\<close>

lemma note_reading_object_of: "note_reading schema (note_object_of n) = n"
  by (simp add: note_reading_def note_object_of_def contents_def)

lemma document_reading_store_objects: "document_reading (store_objects s) = data s"
  by (simp add: document_reading_def store_objects_def o_def note_reading_object_of)

lemma store_reading_store_objects: "store_reading (store_objects s) = s"
  by (simp add: store_reading_def document_reading_store_objects) (simp add: store_objects_def)

lemma find_object_of: "find_object i (map note_object_of ns) = find_index i ns"
  by (induction ns) (simp_all add: note_object_of_def)

lemma validate_tags_object_by_value:
  "validate_tags_object (store_objects s) category_arg type_arg priority_arg
     (map_option Other_list topics_arg) =
   validate_tags s category_arg type_arg priority_arg topics_arg"
  by (cases topics_arg)
    (simp_all add: validate_tags_object_def store_reading_store_objects contents_def)

lemma save_object_by_value:
  "save_object ok (store_objects s) = (fst (save ok s), store_objects (snd (save ok s)))"
  by (simp add: save_object_def save_def document_reading_store_objects)
    (simp add: store_objects_def)

lemma store_objects_notes:
  "(store_objects s)\<lparr>note_objects := map note_object_of ns\<rparr> =
   store_objects (s\<lparr>data := (data s)\<lparr>all_notes := ns\<rparr>\<rparr>)"
  by (simp add: store_objects_def)

lemma store_objects_schema:
  "(store_objects s)\<lparr>schema_lists := schema\<rparr> =
   store_objects (s\<lparr>data := (data s)\<lparr>tag_schema := schema\<rparr>\<rparr>)"
  by (simp add: store_objects_def)

lemma add_tags_to_schema_object_by_value:
  "snd (add_tags_to_schema_object e dimension ts (store_objects s)) =
   store_objects (snd (add_tags_to_schema e dimension ts s))"
proof (cases "dimension \<in> set valid_dimensions")
  case False
  then show ?thesis by (simp add: add_tags_to_schema_object_def add_tags_to_schema_def)
next
  case True
  have g: "schema_lists (store_objects s) = tag_schema (data s)"
    by (simp add: store_objects_def)
  from True show ?thesis
    by (simp add: add_tags_to_schema_object_def add_tags_to_schema_def Let_def g
        store_objects_schema save_object_by_value split: prod.splits sum.splits)
qed

lemma note_objects_store_objects:
  "note_objects (store_objects s) = map note_object_of (all_notes (data s))"
  "schema_lists (store_objects s) = tag_schema (data s)"
  by (simp_all add: store_objects_def)

lemma note_object_of_record:
  "\<lparr>object_id = i, object_title = t, object_content = c, object_category = ca,
    object_type = ty, object_priority = p, object_topics = Other_list ts,
    object_created = cr, object_updated = u\<rparr> =
   note_object_of
     \<lparr>note_id = i, title = t, content = c,
      tags = \<lparr>category = ca, type_tag = ty, priority = p, topics = ts\<rparr>,
      created = cr, updated = u\<rparr>"
  by (simp add: note_object_of_def)

lemma store_objects_append:
  "(store_objects s)\<lparr>note_objects := map note_object_of ns @ [note_object_of n]\<rparr> =
   store_objects (s\<lparr>data := (data s)\<lparr>all_notes := ns @ [n]\<rparr>\<rparr>)"
  by (simp add: store_objects_def)

lemma create_note_object_by_value:
  "snd (create_note_object e title_arg content_arg category_arg type_arg priority_arg
          (map_option Other_list topics_arg) (store_objects s)) =
   store_objects (snd (create_note e title_arg content_arg category_arg type_arg priority_arg
          topics_arg s))"
proof (cases "validate_tags s (Some category_arg) (Some type_arg) (Some priority_arg) topics_arg")
  case (Pair is_valid err)
  show ?thesis
  proof (cases topics_arg)
    case None
    with Pair show ?thesis
      by (simp add: create_note_object_def create_note_def
          validate_tags_object_by_value [where topics_arg = None, simplified]
          note_objects_store_objects note_object_of_record store_objects_append
          save_object_by_value Let_def split: prod.splits sum.splits)
  next
    case (Some ts)
    with Pair show ?thesis
      by (simp add: create_note_object_def create_note_def
          validate_tags_object_by_value [where topics_arg = "Some ts", simplified]
          note_objects_store_objects contents_def note_object_of_record store_objects_append
          save_object_by_value Let_def split: prod.splits sum.splits)
  qed
qed

lemma update_fields_object_by_value:
  "update_fields_object now title_arg content_arg category_arg type_arg priority_arg
     (map_option Other_list topics_arg) (note_object_of n) =
   note_object_of (update_fields now title_arg content_arg category_arg type_arg priority_arg
     topics_arg n)"
  by (cases topics_arg)
    (simp_all add: update_fields_object_def update_fields_def note_object_of_def Let_def)

lemma update_note_object_by_value:
  "snd (update_note_object e i title_arg content_arg category_arg type_arg priority_arg
          (map_option Other_list topics_arg) (store_objects s)) =
   store_objects (snd (update_note e i title_arg content_arg category_arg type_arg priority_arg
          topics_arg s))"
proof (cases "find_index i (all_notes (data s))")
  case None
  then show ?thesis
    by (simp add: update_note_object_def update_note_def note_objects_store_objects
        find_object_of)
next
  case (Some k)
  then have k: "k < length (all_notes (data s))"
    by (simp add: find_index_Some)
  obtain is_valid err where
    v: "validate_tags s category_arg type_arg priority_arg topics_arg = (is_valid, err)"
    by (cases "validate_tags s category_arg type_arg priority_arg topics_arg")
  show ?thesis
  proof (cases is_valid)
    case False
    with Some v show ?thesis
      by (simp add: update_note_object_def update_note_def note_objects_store_objects
          find_object_of validate_tags_object_by_value)
  next
    case True
    let ?n = "update_fields (timestamp (utcnow e)) title_arg content_arg category_arg type_arg
        priority_arg topics_arg (all_notes (data s) ! k)"
    have a: "(store_objects s)\<lparr>note_objects :=
        (map note_object_of (all_notes (data s)))[k := note_object_of ?n]\<rparr> =
      store_objects (s\<lparr>data := (data s)\<lparr>all_notes := (all_notes (data s))[k := ?n]\<rparr>\<rparr>)"
      using store_objects_notes [where s = s and ns = "(all_notes (data s))[k := ?n]"]
      by (simp add: map_update)
    from Some True k v show ?thesis
      by (simp add: update_note_object_def update_note_def note_objects_store_objects
          find_object_of validate_tags_object_by_value update_fields_object_by_value a
          save_object_by_value Let_def split: prod.splits sum.splits)
  qed
qed

lemma delete_note_object_by_value:
  "snd (delete_note_object e i (store_objects s)) = store_objects (snd (delete_note e i s))"
proof (cases "find_index i (all_notes (data s))")
  case None
  then show ?thesis
    by (simp add: delete_note_object_def delete_note_def note_objects_store_objects
        find_object_of)
next
  case (Some k)
  have a: "(store_objects s)\<lparr>note_objects :=
      take k (map note_object_of (all_notes (data s))) @
      drop (Suc k) (map note_object_of (all_notes (data s)))\<rparr> =
    store_objects (s\<lparr>data := (data s)\<lparr>all_notes :=
      take k (all_notes (data s)) @ drop (Suc k) (all_notes (data s))\<rparr>\<rparr>)"
    using store_objects_notes
      [where s = s and ns = "take k (all_notes (data s)) @ drop (Suc k) (all_notes (data s))"]
    by (simp add: take_map drop_map)
  from Some show ?thesis
    by (simp add: delete_note_object_def delete_note_def note_objects_store_objects
        find_object_of a save_object_by_value Let_def split: prod.splits sum.splits)
qed

lemma apply_object_operation_by_value:
  "apply_object_operation (store_objects s) (by_value operation) =
   store_objects (apply_operation s operation)"
  by (cases operation)
    (simp_all add: create_note_object_by_value update_note_object_by_value
      delete_note_object_by_value add_tags_to_schema_object_by_value)

lemma run_objects_by_value:
  "run_objects (map by_value ops) (store_objects s) = store_objects (run ops s)"
  by (induction ops arbitrary: s)
    (simp_all add: run_objects_def run_def apply_object_operation_by_value)

text \<open>
  So when no call passes one of the schema's own lists as topics, schema membership is
  an invariant of the document as it reads, and of the file.
\<close>

theorem schema_membership_by_value:
  "schema_membership (document_reading (run_objects (map by_value ops) (init_object None)))"
proof -
  have "schema_membership (data (run ops (init None)))"
    by (rule run_invariant) (simp add: init_def load_def seed_document_def schema_membership_def)
  then show ?thesis
    by (simp add: init_object_def run_objects_by_value document_reading_store_objects)
qed

lemma init_object_None:
  "init_object None =
     \<lparr>schema_lists = tag_schema seed_document, note_objects = [], object_disk = None,
      object_save_calls = 0\<rparr>"
  by (simp add: init_object_def store_objects_def init_def load_def seed_document_def)

lemma run_shared_2:
  "run_objects (take 2 shared_calls) (init_object None) =
     \<lparr>schema_lists = (tag_schema seed_document)
        \<lparr>schema_topics := [''mcp'', ''ai'', ''coding'', ''design'', ''work'', ''personal'',
                            ''learning'']\<rparr>,
      note_objects =
        [\<lparr>object_id = ''n1'', object_title = ''Plan'', object_content = ''Body'',
          object_category = ''work'', object_type = ''todo'', object_priority = ''active'',
          object_topics = Schema_list ''category'',
          object_created = ''2024-01-01T00:00:00Z'',
          object_updated = ''2024-01-01T00:00:00Z''\<rparr>],
      object_disk = Some
        \<lparr>tag_schema = (tag_schema seed_document)
           \<lparr>schema_topics := [''mcp'', ''ai'', ''coding'', ''design'', ''work'', ''personal'',
                               ''learning'']\<rparr>,
         all_notes = [note1\<lparr>tags := (tags note1)\<lparr>topics := [''work'', ''personal'', ''learning'']\<rparr>\<rparr>]\<rparr>,
      object_save_calls = 2\<rparr>"
  by (simp add: shared_calls_def run_objects_def init_object_None add_tags_to_schema_object_def
      create_note_object_def validate_tags_object_def validate_tags_def store_reading_def
      document_reading_def note_reading_def contents_def save_object_def valid_dimensions_def
      dimension_get_def dimension_set_def seed_document_def env0_def timestamp_clock0 note1_def
      Let_def)

lemma run_shared_1:
  "run_objects (take 1 shared_calls) (init_object None) =
     \<lparr>schema_lists = shared_schema, note_objects = [],
      object_disk = Some \<lparr>tag_schema = shared_schema, all_notes = []\<rparr>,
      object_save_calls = 1\<rparr>"
  by (simp add: shared_calls_def run_objects_def init_object_None add_tags_to_schema_object_def
      document_reading_def save_object_def valid_dimensions_def shared_schema_def
      dimension_get_def dimension_set_def seed_document_def env0_def Let_def)

lemma run_shared_2_eq:
  "run_objects (take 2 shared_calls) (init_object None) =
     \<lparr>schema_lists = shared_schema, note_objects = [shared_note],
      object_disk = Some
        \<lparr>tag_schema = shared_schema,
         all_notes = [note1\<lparr>tags := (tags note1)\<lparr>topics := [''work'', ''personal'', ''learning'']\<rparr>\<rparr>]\<rparr>,
      object_save_calls = 2\<rparr>"
  by (simp add: run_shared_2 shared_schema_def shared_note_def)

lemma run_shared_3:
  "run_objects shared_calls (init_object None) =
     \<lparr>schema_lists = shared_schema
        \<lparr>schema_category := [''work'', ''personal'', ''learning'', ''home'']\<rparr>,
      note_objects = [shared_note],
      object_disk = Some
        \<lparr>tag_schema = shared_schema
           \<lparr>schema_category := [''work'', ''personal'', ''learning'', ''home'']\<rparr>,
         all_notes =
           [note1\<lparr>tags := (tags note1)
              \<lparr>topics := [''work'', ''personal'', ''learning'', ''home'']\<rparr>\<rparr>]\<rparr>,
      object_save_calls = 3\<rparr>"
proof -
  have "run_objects shared_calls (init_object None) =
      apply_object_operation (run_objects (take 2 shared_calls) (init_object None))
        (AddTagsToSchemaObject env1 ''category'' [''home''])"
    by (simp add: shared_calls_def run_objects_def)
  then show ?thesis
    by (simp add: run_shared_2_eq add_tags_to_schema_object_def document_reading_def
        note_reading_def contents_def save_object_def valid_dimensions_def shared_schema_def
        shared_note_def dimension_get_def dimension_set_def seed_document_def env1_def
        note1_def Let_def)
qed

text \<open>
  C1. Schema membership is meant to hold in every document reached from the seed
  document by calls of \<open>create_note\<close>, \<open>update_note\<close>, \<open>delete_note\<close> and
  \<open>add_tags_to_schema\<close>. The code does not keep it when a caller passes back one of the
  schema's own lists. \<open>add_tags_to_schema\<close> adds the three category values to the topics
  and returns the schema; \<open>create_note\<close> with the category list of that schema as topics
  validates, every element being a topic now, and stores that list object;
  \<open>add_tags_to_schema\<close> then appends \<open>home\<close> to the category list. All three calls
  return, the invariant holds before them and after the second, and after the third the
  note reads with the topic \<open>home\<close>, which is not in the topics dimension: the
  invariant fails, in memory and in the file written.
\<close>

theorem schema_membership_broken_by_shared_list:
  "schema_membership (document_reading (init_object None)) \<and>
   fst (add_tags_to_schema_object env0 ''topics'' [''work'', ''personal'', ''learning'']
          (init_object None)) = Inr shared_schema \<and>
   fst (create_note_object env0 ''Plan'' ''Body'' ''work'' ''todo'' ''active''
          (Some (Schema_list ''category''))
          (run_objects (take 1 shared_calls) (init_object None))) = Inr shared_note \<and>
   schema_membership (document_reading (run_objects (take 2 shared_calls) (init_object None))) \<and>
   fst (add_tags_to_schema_object env1 ''category'' [''home'']
          (run_objects (take 2 shared_calls) (init_object None))) =
     Inr (shared_schema\<lparr>schema_category := [''work'', ''personal'', ''learning'', ''home'']\<rparr>) \<and>
   map (\<lambda>n. topics (tags n))
     (all_notes (document_reading (run_objects shared_calls (init_object None)))) =
     [[''work'', ''personal'', ''learning'', ''home'']] \<and>
   schema_topics (schema_lists (run_objects shared_calls (init_object None))) =
     [''mcp'', ''ai'', ''coding'', ''design'', ''work'', ''personal'', ''learning''] \<and>
   object_disk (run_objects shared_calls (init_object None)) =
     Some (document_reading (run_objects shared_calls (init_object None))) \<and>
   \<not> schema_membership (document_reading (run_objects shared_calls (init_object None)))"
proof -
  have a: "schema_membership (document_reading (init_object None))"
    by (simp add: init_object_None document_reading_def schema_membership_def)
  have b: "fst (add_tags_to_schema_object env0 ''topics'' [''work'', ''personal'', ''learning'']
          (init_object None)) = Inr shared_schema"
    by (simp add: init_object_None add_tags_to_schema_object_def save_object_def
        valid_dimensions_def shared_schema_def dimension_get_def dimension_set_def
        seed_document_def env0_def Let_def)
  have c: "fst (create_note_object env0 ''Plan'' ''Body'' ''work'' ''todo'' ''active''
          (Some (Schema_list ''category''))
          (run_objects (take 1 shared_calls) (init_object None))) = Inr shared_note"
    unfolding run_shared_1
    by (simp add: create_note_object_def validate_tags_object_def validate_tags_def
        store_reading_def document_reading_def contents_def save_object_def shared_schema_def
        shared_note_def dimension_get_def seed_document_def env0_def timestamp_clock0 Let_def)
  have d: "schema_membership
      (document_reading (run_objects (take 2 shared_calls) (init_object None)))"
    by (simp add: run_shared_2_eq document_reading_def note_reading_def contents_def
        schema_membership_def note_in_schema_def shared_schema_def shared_note_def
        dimension_get_def seed_document_def)
  have e: "fst (add_tags_to_schema_object env1 ''category'' [''home'']
          (run_objects (take 2 shared_calls) (init_object None))) =
     Inr (shared_schema\<lparr>schema_category := [''work'', ''personal'', ''learning'', ''home'']\<rparr>)"
    by (simp add: run_shared_2_eq add_tags_to_schema_object_def save_object_def
        valid_dimensions_def shared_schema_def dimension_get_def dimension_set_def
        seed_document_def env1_def Let_def)
  have f: "map (\<lambda>n. topics (tags n))
     (all_notes (document_reading (run_objects shared_calls (init_object None)))) =
     [[''work'', ''personal'', ''learning'', ''home'']]"
    by (simp add: run_shared_3 document_reading_def note_reading_def contents_def
        shared_note_def dimension_get_def)
  have g: "schema_topics (schema_lists (run_objects shared_calls (init_object None))) =
     [''mcp'', ''ai'', ''coding'', ''design'', ''work'', ''personal'', ''learning'']"
    by (simp add: run_shared_3 shared_schema_def)
  have h: "object_disk (run_objects shared_calls (init_object None)) =
     Some (document_reading (run_objects shared_calls (init_object None)))"
    by (simp add: run_shared_3 document_reading_def note_reading_def contents_def
        shared_note_def dimension_get_def note1_def)
  have i: "\<not> schema_membership
      (document_reading (run_objects shared_calls (init_object None)))"
    by (simp add: run_shared_3 document_reading_def note_reading_def contents_def
        schema_membership_def note_in_schema_def shared_schema_def shared_note_def
        dimension_get_def seed_document_def)
  from a b c d e f g h i show ?thesis by blast
qed

end
